theory Spec2Isabelle
  imports Complex_Main "HOL-Library.Char_ord" "HOL-Library.List_Lexorder"
begin

section \<open>JavaScript primitives used by the two pages\<close>

text \<open>
  Strings are lists of characters. The texts at stake (ZIP codes, state codes, HTTP
  messages, CSV fields) are ASCII; on ASCII the code-unit order of JavaScript strings is
  the order of \<open>Char_ord\<close>, and the lexicographic order of \<open>List_Lexorder\<close> is the order
  the default \<open>Array.prototype.sort\<close> uses. That sort is stable, as the insertion sort
  \<^const>\<open>sort\<close> is.
\<close>

definition digitChar :: "nat \<Rightarrow> char" where
  "digitChar d = (''0123456789'' ! d)"

text \<open>\<open>Number.prototype.toString\<close> on a non-negative integer: its decimal digits.\<close>

fun toString :: "nat \<Rightarrow> string" where
  "toString n =
     (if n < 10 then [digitChar n] else toString (n div 10) @ [digitChar (n mod 10)])"

declare toString.simps [simp del]

text \<open>\<open>String.prototype.padStart\<close> with a one-character filler.\<close>

definition padStart :: "nat \<Rightarrow> char \<Rightarrow> string \<Rightarrow> string" where
  "padStart n c s = replicate (n - length s) c @ s"

definition isDigit :: "char \<Rightarrow> bool" where
  "isDigit c = (c \<in> set ''0123456789'')"

text \<open>\<open>[...new Set(xs)]\<close>: the elements in the order of their first occurrence.\<close>

fun setFromArray :: "'a list \<Rightarrow> 'a list \<Rightarrow> 'a list" where
  "setFromArray seen [] = seen"
| "setFromArray seen (x # xs) =
     (if x \<in> set seen then setFromArray seen xs else setFromArray (seen @ [x]) xs)"

definition newSet :: "'a list \<Rightarrow> 'a list" where
  "newSet xs = setFromArray [] xs"

text \<open>
  White space is the ASCII part of what \<open>trim\<close> and the class \<open>\s\<close> take as white space:
  space, tab, line feed, vertical tab, form feed, carriage return. The white space beyond
  ASCII (no-break space, the byte order mark, the Unicode space separators) is not
  modelled.
\<close>

definition isWhiteSpace :: "char \<Rightarrow> bool" where
  "isWhiteSpace c = (c \<in> set [CHR '' '', CHR 0x09, CHR 0x0A, CHR 0x0B, CHR 0x0C, CHR 0x0D])"

definition trim :: "string \<Rightarrow> string" where
  "trim s = rev (dropWhile isWhiteSpace (rev (dropWhile isWhiteSpace s)))"

text \<open>\<open>Array.prototype.join\<close>.\<close>

fun join :: "string \<Rightarrow> string list \<Rightarrow> string" where
  "join sep [] = []"
| "join sep [x] = x"
| "join sep (x # y # ys) = x @ sep @ join sep (y # ys)"

text \<open>\<open>Math.round\<close>: the nearest integer, a half rounded up. Numbers are modelled by
  exact reals, so the rounding of IEEE doubles is not part of the model.\<close>

definition jsRound :: "real \<Rightarrow> int" where
  "jsRound x = \<lfloor>x + 1 / 2\<rfloor>"


section \<open>Weekend page: the ZIP range generator\<close>

text \<open>The table \<open>zipRanges\<close> of \<open>generateAllZipCodesForState\<close>: state code, start, end.\<close>

definition zipRanges :: "(string \<times> nat \<times> nat) list" where
  "zipRanges =
    [(''AL'', 35004, 36925), (''AK'', 99501, 99950), (''AZ'', 85001, 86556),
     (''AR'', 71601, 72959), (''CA'', 90001, 96162), (''CO'', 80001, 81658),
     (''CT'', 6001, 6928), (''DE'', 19701, 19980), (''FL'', 32003, 34997),
     (''GA'', 30002, 31999), (''HI'', 96701, 96898), (''ID'', 83201, 83877),
     (''IL'', 60001, 62999), (''IN'', 46001, 47997), (''IA'', 50001, 52809),
     (''KS'', 66002, 67954), (''KY'', 40003, 42788), (''LA'', 70001, 71497),
     (''ME'', 3901, 4992), (''MD'', 20601, 21930), (''MA'', 1001, 5544),
     (''MI'', 48001, 49971), (''MN'', 55001, 56763), (''MS'', 38601, 39776),
     (''MO'', 63001, 65899), (''MT'', 59001, 59937), (''NE'', 68001, 69367),
     (''NV'', 89001, 89883), (''NH'', 3031, 3897), (''NJ'', 7001, 8989),
     (''NM'', 87001, 88441), (''NY'', 10001, 14925), (''NC'', 27006, 28909),
     (''ND'', 58001, 58856), (''OH'', 43001, 45999), (''OK'', 73001, 74966),
     (''OR'', 97001, 97920), (''PA'', 15001, 19640), (''RI'', 2801, 2940),
     (''SC'', 29001, 29945), (''SD'', 57001, 57799), (''TN'', 37010, 38589),
     (''TX'', 73301, 88595), (''UT'', 84001, 84791), (''VT'', 5001, 5907),
     (''VA'', 20101, 24658), (''WA'', 98001, 99403), (''WV'', 24701, 26886),
     (''WI'', 53001, 54990), (''WY'', 82001, 83128)]"

text \<open>The states whose loop iteration pads the string with leading zeros.\<close>

definition paddedStates :: "string list" where
  "paddedStates = [''CT'', ''MA'', ''ME'', ''NH'', ''RI'', ''VT'']"

text \<open>One iteration of the main loop: the string pushed for the number \<open>zipNum\<close> (the loop's \<open>zip\<close>).\<close>

definition zipStr :: "string \<Rightarrow> nat \<Rightarrow> string" where
  "zipStr stateCode zipNum =
     (if stateCode \<in> set paddedStates then padStart 5 (CHR ''0'') (toString zipNum)
      else toString zipNum)"

text \<open>A loop \<open>for (zip = a; zip <= b; zip++) zips.push(zip.toString())\<close>.\<close>

definition extraRange :: "nat \<Rightarrow> nat \<Rightarrow> string list" where
  "extraRange a b = map toString [a..<Suc b]"

definition generateAllZipCodesForState :: "string \<Rightarrow> string list" where
  "generateAllZipCodesForState stateCode =
     (case map_of zipRanges stateCode of
        None \<Rightarrow> []
      | Some (rangeStart, rangeEnd) \<Rightarrow>
          let zips = map (zipStr stateCode) [rangeStart..<Suc rangeEnd];
              zips = (if stateCode = ''NY'' then zips @ extraRange 10001 11697 else zips);
              zips = (if stateCode = ''CA'' then zips @ extraRange 93001 96162 else zips);
              zips = (if stateCode = ''TX''
                      then zips @ extraRange 75001 79999 @ extraRange 77001 77999 else zips)
          in sort (newSet zips))"

text \<open>The pattern \<open>/^\d{5}$/\<close> of the specification.\<close>

definition isFiveDigits :: "string \<Rightarrow> bool" where
  "isFiveDigits s = (length s = 5 \<and> list_all isDigit s)"


section \<open>Weekend page: temperatures of the forecast\<close>

text \<open>The expression applied to \<open>forecastData.days[i].tempmax\<close> for this weekend's three
  days, before \<open>Math.round\<close>.\<close>

definition unitRoundTrip :: "real \<Rightarrow> real" where
  "unitRoundTrip x = ((((x - 32) * 5) / 9) * 9) / 5 + 32"


section \<open>Weekend page: CSV export\<close>

definition dquote :: char where
  "dquote = CHR 0x22"

definition newline :: char where
  "newline = CHR 0x0A"

text \<open>\<open>stringValue.replace(/"/g, '""')\<close>.\<close>

fun doubleQuotes :: "string \<Rightarrow> string" where
  "doubleQuotes [] = []"
| "doubleQuotes (c # cs) =
     (if c = dquote then dquote # dquote # doubleQuotes cs else c # doubleQuotes cs)"

definition needsQuoting :: "string \<Rightarrow> bool" where
  "needsQuoting s = (CHR '','' \<in> set s \<or> dquote \<in> set s \<or> newline \<in> set s)"

text \<open>\<open>escapeCSV\<close>; \<open>None\<close> stands for \<open>null\<close> and \<open>undefined\<close>, \<open>Some s\<close> for a value whose
  \<open>String(value)\<close> is \<open>s\<close>.\<close>

definition escapeCSV :: "string option \<Rightarrow> string" where
  "escapeCSV v =
     (case v of
        None \<Rightarrow> []
      | Some stringValue \<Rightarrow>
          if needsQuoting stringValue then dquote # doubleQuotes stringValue @ [dquote]
          else stringValue)"

text \<open>Modelled from the spec: the repository writes CSV and never reads it, so the reading
  of one field is taken from the specification's words: a field wrapped in double quotes is
  stripped of them and every doubled quote inside is collapsed to one; any other field is
  taken as it is.\<close>

fun spec_collapseQuotes :: "string \<Rightarrow> string" where
  "spec_collapseQuotes (a # b # cs) =
     (if a = dquote \<and> b = dquote then dquote # spec_collapseQuotes cs
      else a # spec_collapseQuotes (b # cs))"
| "spec_collapseQuotes cs = cs"

definition spec_unescapeCSV :: "string \<Rightarrow> string" where
  "spec_unescapeCSV f =
     (if 2 \<le> length f \<and> hd f = dquote \<and> last f = dquote
      then spec_collapseQuotes (butlast (tl f)) else f)"


section \<open>Weekend page: the weekend date calculator\<close>

text \<open>
  A \<open>Date\<close> is modelled by its local calendar day, counted in days from 1 January 1970,
  and its time within that day, which \<open>setDate\<close> and \<open>setFullYear\<close> keep. Time zones and
  daylight saving are not modelled. The calendar functions are those of the ECMAScript
  specification (\<open>DayFromYear\<close>, \<open>DaysInYear\<close>, \<open>YearFromTime\<close>, \<open>MonthFromTime\<close>,
  \<open>DateFromTime\<close>, \<open>WeekDay\<close>, \<open>MakeDay\<close>), on day numbers instead of milliseconds.
\<close>

definition DayFromYear :: "int \<Rightarrow> int" where
  "DayFromYear y =
     365 * (y - 1970) + (y - 1969) div 4 - (y - 1901) div 100 + (y - 1601) div 400"

definition DaysInYear :: "int \<Rightarrow> int" where
  "DaysInYear y =
     (if y mod 4 \<noteq> 0 then 365 else if y mod 100 \<noteq> 0 then 366
      else if y mod 400 \<noteq> 0 then 365 else 366)"

text \<open>A year has 365 or 366 days; the search for the year of a day terminates by this.\<close>

lemma div_step:
  fixes n k :: int
  assumes "0 < k"
  shows "(n + 1) div k = n div k + (if (n + 1) mod k = 0 then 1 else 0)"
proof -
  define q where "q = n div k"
  define r where "r = n mod k"
  have n: "n = q * k + r" and r: "0 \<le> r" "r < k"
    using assms by (simp_all add: q_def r_def)
  show ?thesis
  proof (cases "r + 1 = k")
    case True
    then have e: "n + 1 = (q + 1) * k" using n by (simp add: algebra_simps)
    have "(n + 1) div k = q + 1" using assms unfolding e by simp
    moreover have "(n + 1) mod k = 0" unfolding e by simp
    ultimately show ?thesis by (simp add: q_def)
  next
    case False
    with r have lt: "r + 1 < k" by simp
    have e: "n + 1 = q * k + (r + 1)" using n by simp
    have "(n + 1) div k = q"
      unfolding e using r lt by (simp add: div_pos_pos_trivial)
    moreover have "(n + 1) mod k = r + 1"
      unfolding e using r lt by (simp add: mod_pos_pos_trivial)
    ultimately show ?thesis using r by (simp add: q_def)
  qed
qed

lemma mod_400_100: "(y::int) mod 400 = 0 \<Longrightarrow> y mod 100 = 0"
proof -
  assume "y mod 400 = 0"
  then have "400 dvd y" by (simp add: mod_eq_0_iff_dvd)
  moreover have "(100::int) dvd 400" by simp
  ultimately have "100 dvd y" by (rule dvd_trans [rotated])
  then show ?thesis by (simp add: mod_eq_0_iff_dvd)
qed

lemma mod_100_4: "(y::int) mod 100 = 0 \<Longrightarrow> y mod 4 = 0"
proof -
  assume "y mod 100 = 0"
  then have "100 dvd y" by (simp add: mod_eq_0_iff_dvd)
  moreover have "(4::int) dvd 100" by simp
  ultimately have "4 dvd y" by (rule dvd_trans [rotated])
  then show ?thesis by (simp add: mod_eq_0_iff_dvd)
qed

lemma mod_4_shift: "((y::int) - 1968) mod 4 = 0 \<longleftrightarrow> y mod 4 = 0"
proof -
  have "(4::int) dvd 1968" by simp
  then show ?thesis by (simp only: mod_eq_0_iff_dvd dvd_diff_left_iff)
qed

lemma mod_100_shift: "((y::int) - 1900) mod 100 = 0 \<longleftrightarrow> y mod 100 = 0"
proof -
  have "(100::int) dvd 1900" by simp
  then show ?thesis by (simp only: mod_eq_0_iff_dvd dvd_diff_left_iff)
qed

lemma mod_400_shift: "((y::int) - 1600) mod 400 = 0 \<longleftrightarrow> y mod 400 = 0"
proof -
  have "(400::int) dvd 1600" by simp
  then show ?thesis by (simp only: mod_eq_0_iff_dvd dvd_diff_left_iff)
qed

lemma DayFromYear_step: "DayFromYear (y + 1) = DayFromYear y + DaysInYear y"
proof -
  have a: "(y - 1968) div 4 = (y - 1969) div 4 + (if y mod 4 = 0 then 1 else 0)"
    using div_step [of 4 "y - 1969"] mod_4_shift [of y] by simp
  have b: "(y - 1900) div 100 = (y - 1901) div 100 + (if y mod 100 = 0 then 1 else 0)"
    using div_step [of 100 "y - 1901"] mod_100_shift [of y] by simp
  have c: "(y - 1600) div 400 = (y - 1601) div 400 + (if y mod 400 = 0 then 1 else 0)"
    using div_step [of 400 "y - 1601"] mod_400_shift [of y] by simp
  have "DayFromYear (y + 1) =
      365 * (y - 1969) + (y - 1968) div 4 - (y - 1900) div 100 + (y - 1600) div 400"
    by (simp add: DayFromYear_def)
  then show ?thesis
    using mod_400_100 [of y] mod_100_4 [of y]
    by (auto simp add: a b c DayFromYear_def DaysInYear_def)
qed

lemma DaysInYear_pos: "365 \<le> DaysInYear y" "DaysInYear y \<le> 366"
  by (simp_all add: DaysInYear_def)

text \<open>
  \<open>YearFromTime\<close>, here \<open>YearFromDay\<close>, is the largest year \<open>y\<close> with
  \<open>DayFromYear y \<le> d\<close>. It is computed by a search from an estimate: downwards to a year
  that starts no later than the day, then upwards to the last such year.
\<close>

function yearDown :: "int \<Rightarrow> int \<Rightarrow> int" where
  "yearDown y d = (if d < DayFromYear y then yearDown (y - 1) d else y)"
  by pat_completeness auto
termination
proof (relation "measure (\<lambda>(y, d). nat (DayFromYear y - d))")
  show "wf (measure (\<lambda>(y, d). nat (DayFromYear y - d)))" by simp
next
  fix y d :: int
  assume "d < DayFromYear y"
  moreover have "DayFromYear y = DayFromYear (y - 1) + DaysInYear (y - 1)"
    using DayFromYear_step [of "y - 1"] by simp
  ultimately show "((y - 1, d), (y, d)) \<in> measure (\<lambda>(y, d). nat (DayFromYear y - d))"
    using DaysInYear_pos(1) [of "y - 1"] by simp
qed

function yearUp :: "int \<Rightarrow> int \<Rightarrow> int" where
  "yearUp y d = (if DayFromYear (y + 1) \<le> d then yearUp (y + 1) d else y)"
  by pat_completeness auto
termination
proof (relation "measure (\<lambda>(y, d). nat (d + 1 - DayFromYear (y + 1)))")
  show "wf (measure (\<lambda>(y, d). nat (d + 1 - DayFromYear (y + 1))))" by simp
next
  fix y d :: int
  assume "DayFromYear (y + 1) \<le> d"
  then show "((y + 1, d), (y, d)) \<in> measure (\<lambda>(y, d). nat (d + 1 - DayFromYear (y + 1)))"
    using DayFromYear_step [of "y + 1"] DaysInYear_pos(1) [of "y + 1"] by simp
qed

declare yearDown.simps [simp del] yearUp.simps [simp del]

definition YearFromDay :: "int \<Rightarrow> int" where
  "YearFromDay d = yearUp (yearDown (1970 + d div 365) d) d"


definition InLeapYear :: "int \<Rightarrow> int" where
  "InLeapYear y = (if DaysInYear y = 366 then 1 else 0)"

definition DayWithinYear :: "int \<Rightarrow> int" where
  "DayWithinYear d = d - DayFromYear (YearFromDay d)"

text \<open>The day within the year at which month \<open>m\<close> (0 to 11) starts.\<close>

definition monthStart :: "int \<Rightarrow> int \<Rightarrow> int" where
  "monthStart m leap =
     (if m = 0 then 0 else if m = 1 then 31 else if m = 2 then 59 + leap
      else if m = 3 then 90 + leap else if m = 4 then 120 + leap
      else if m = 5 then 151 + leap else if m = 6 then 181 + leap
      else if m = 7 then 212 + leap else if m = 8 then 243 + leap
      else if m = 9 then 273 + leap else if m = 10 then 304 + leap else 334 + leap)"

text \<open>\<open>MonthFromTime\<close>, as a function of the day within the year and the leap-year flag.\<close>

definition monthOfDay :: "int \<Rightarrow> int \<Rightarrow> int" where
  "monthOfDay n leap =
     (if n < 31 then 0 else if n < 59 + leap then 1 else if n < 90 + leap then 2
      else if n < 120 + leap then 3 else if n < 151 + leap then 4
      else if n < 181 + leap then 5 else if n < 212 + leap then 6
      else if n < 243 + leap then 7 else if n < 273 + leap then 8
      else if n < 304 + leap then 9 else if n < 334 + leap then 10 else 11)"

definition MonthFromDay :: "int \<Rightarrow> int" where
  "MonthFromDay d = monthOfDay (DayWithinYear d) (InLeapYear (YearFromDay d))"

definition DateFromDay :: "int \<Rightarrow> int" where
  "DateFromDay d =
     DayWithinYear d - monthStart (MonthFromDay d) (InLeapYear (YearFromDay d)) + 1"

definition WeekDay :: "int \<Rightarrow> int" where
  "WeekDay d = (d + 4) mod 7"

text \<open>\<open>MakeDay\<close>: the day number of day \<open>dt\<close> of a month; \<open>dt\<close> may lie outside the
  month, and the result then lies in a neighbouring month.\<close>

definition MakeDay :: "int \<Rightarrow> int \<Rightarrow> int \<Rightarrow> int" where
  "MakeDay year month dt =
     (let ym = year + month div 12; mn = month mod 12
      in DayFromYear ym + monthStart mn (InLeapYear ym) + dt - 1)"

record js_date =
  localDay :: int
  timeInDay :: nat

definition getDay :: "js_date \<Rightarrow> int" where
  "getDay t = WeekDay (localDay t)"

definition getDate :: "js_date \<Rightarrow> int" where
  "getDate t = DateFromDay (localDay t)"

definition getMonth :: "js_date \<Rightarrow> int" where
  "getMonth t = MonthFromDay (localDay t)"

definition getFullYear :: "js_date \<Rightarrow> int" where
  "getFullYear t = YearFromDay (localDay t)"

definition setDate :: "js_date \<Rightarrow> int \<Rightarrow> js_date" where
  "setDate t dt = t\<lparr>localDay := MakeDay (getFullYear t) (getMonth t) dt\<rparr>"

definition setFullYear :: "js_date \<Rightarrow> int \<Rightarrow> js_date" where
  "setFullYear t y = t\<lparr>localDay := MakeDay y (getMonth t) (getDate t)\<rparr>"

record weekend_dates =
  thisFriday :: js_date
  thisSaturday :: js_date
  thisSunday :: js_date
  nextFriday :: js_date
  nextSaturday :: js_date
  nextSunday :: js_date
  lastYearFriday :: js_date
  lastYearSaturday :: js_date
  lastYearSunday :: js_date

text \<open>The \<open>if\<close> chain of \<open>getWeekendDates\<close> on \<open>today.getDay()\<close> (0 is Sunday).\<close>

definition daysUntilFriday :: "int \<Rightarrow> int" where
  "daysUntilFriday currentDay =
     (if currentDay = 0 then 5 else if currentDay = 1 then 4 else if currentDay = 2 then 3
      else if currentDay = 3 then 2 else if currentDay = 4 then 1
      else if currentDay = 5 then 0 else 6)"

text \<open>\<open>getWeekendDates\<close>, with \<open>new Date()\<close> as the argument \<open>today\<close>.\<close>

definition getWeekendDates :: "js_date \<Rightarrow> weekend_dates" where
  "getWeekendDates today =
     (let currentDay = getDay today;
          thisFriday = setDate today (getDate today + daysUntilFriday currentDay);
          thisSaturday = setDate thisFriday (getDate thisFriday + 1);
          thisSunday = setDate thisFriday (getDate thisFriday + 2);
          nextFriday = setDate thisFriday (getDate thisFriday + 7);
          nextSaturday = setDate nextFriday (getDate nextFriday + 1);
          nextSunday = setDate nextFriday (getDate nextFriday + 2);
          lastYearFriday = setFullYear thisFriday (getFullYear thisFriday - 1);
          lastYearSaturday = setFullYear thisSaturday (getFullYear thisSaturday - 1);
          lastYearSunday = setFullYear thisSunday (getFullYear thisSunday - 1)
      in \<lparr>thisFriday = thisFriday, thisSaturday = thisSaturday, thisSunday = thisSunday,
          nextFriday = nextFriday, nextSaturday = nextSaturday, nextSunday = nextSunday,
          lastYearFriday = lastYearFriday, lastYearSaturday = lastYearSaturday,
          lastYearSunday = lastYearSunday\<rparr>)"

text \<open>The weekday table of the specification: Sunday 5, Monday 4, Tuesday 3, Wednesday 2,
  Thursday 1, Friday 0, Saturday 6.\<close>

definition spec_offset :: "int \<Rightarrow> int" where
  "spec_offset wd = [5, 4, 3, 2, 1, 0, 6] ! nat wd"
text \<open>The length of month \<open>m\<close> (0 to 11), used to state which day numbers are dates of a month.\<close>

definition daysInMonth :: "int \<Rightarrow> int \<Rightarrow> int" where
  "daysInMonth m leap =
     (if m = 1 then 28 + leap else if m = 3 \<or> m = 5 \<or> m = 8 \<or> m = 10 then 30 else 31)"


text \<open>What \<open>setFullYear(getFullYear() - 1)\<close> gives, as a relation between a date and the
  result: the year before, with the month and the day of the month unchanged, except that
  29 February becomes 1 March.\<close>

definition yearBefore :: "js_date \<Rightarrow> js_date \<Rightarrow> bool" where
  "yearBefore t u =
     (getFullYear u = getFullYear t - 1 \<and> timeInDay u = timeInDay t \<and>
      (if getMonth t = 1 \<and> getDate t = 29 then getMonth u = 2 \<and> getDate u = 1
       else getMonth u = getMonth t \<and> getDate u = getDate t))"


section \<open>Standard page: ZIP code validation and submission\<close>

text \<open>\<open>String.prototype.split\<close> with a pattern \<open>[...]+\<close>: the fields between the maximal runs
  of separator characters; a separator at the start or at the end of the string gives an
  empty first or last field. The result is never empty, so the first branch of the \<open>case\<close>
  is never taken.\<close>

fun splitOnRuns :: "(char \<Rightarrow> bool) \<Rightarrow> string \<Rightarrow> string list" where
  "splitOnRuns p [] = [[]]"
| "splitOnRuns p (c # cs) =
     (if p c then (if cs \<noteq> [] \<and> p (hd cs) then splitOnRuns p cs else [] # splitOnRuns p cs)
      else (case splitOnRuns p cs of [] \<Rightarrow> [[c]] | f # fs \<Rightarrow> (c # f) # fs))"

text \<open>The character class of \<open>/[\n,\s]+/\<close>.\<close>

definition isSeparator :: "char \<Rightarrow> bool" where
  "isSeparator c = (c = CHR 0x0A \<or> c = CHR '','' \<or> isWhiteSpace c)"

text \<open>\<open>ZIP_CODE_REGEX\<close>, \<open>/^\d{5}(-\d{4})?$/\<close>: five digits, or five digits, a hyphen and four
  digits.\<close>

definition ZIP_CODE_REGEX :: "string \<Rightarrow> bool" where
  "ZIP_CODE_REGEX s =
     ((length s = 5 \<and> list_all isDigit s) \<or>
      (length s = 10 \<and> list_all isDigit (take 5 s) \<and> s ! 5 = CHR ''-'' \<and>
       list_all isDigit (drop 6 s)))"

definition isValidZipCode :: "string \<Rightarrow> bool" where
  "isValidZipCode zipCode = ZIP_CODE_REGEX (trim zipCode)"

record zip_validation =
  valid :: "string list"
  invalid :: "string list"

text \<open>The body of the \<open>forEach\<close> of \<open>validateAndCleanZipCodes\<close>; \<open>cleanZip.split('-')[0]\<close> is
  the part of \<open>cleanZip\<close> before its first hyphen.\<close>

definition validateStep :: "zip_validation \<Rightarrow> string \<Rightarrow> zip_validation" where
  "validateStep acc zipCode =
     (let cleanZip = trim zipCode
      in if cleanZip \<noteq> [] \<and> isValidZipCode cleanZip then
           (let fiveDigitZip = takeWhile (\<lambda>c. c \<noteq> CHR ''-'') cleanZip
            in if fiveDigitZip \<in> set (valid acc) then acc
               else acc\<lparr>valid := valid acc @ [fiveDigitZip]\<rparr>)
         else if cleanZip \<noteq> [] then acc\<lparr>invalid := invalid acc @ [cleanZip]\<rparr>
         else acc)"

definition validateAndCleanZipCodes :: "string list \<Rightarrow> zip_validation" where
  "validateAndCleanZipCodes zipCodes = foldl validateStep \<lparr>valid = [], invalid = []\<rparr> zipCodes"

text \<open>The tokens of the input: \<open>zipArray\<close> in \<open>validateZipCodes\<close>.\<close>

definition zipArray :: "string \<Rightarrow> string list" where
  "zipArray zipString =
     filter (\<lambda>z. 0 < length z) (map trim (splitOnRuns isSeparator zipString))"

definition validateZipCodes :: "string \<Rightarrow> zip_validation" where
  "validateZipCodes zipString = validateAndCleanZipCodes (zipArray zipString)"

text \<open>What \<open>handleSubmit\<close> does with the form: it sets \<open>validationErrors\<close> and returns, or it
  goes on to the POST request to \<open>/api/fetch-weather\<close> with the API key and the ZIP codes.\<close>

datatype submit_outcome =
  ValidationErrors "string list"
| PostFetchWeather string "string list"

definition handleSubmit :: "string \<Rightarrow> string \<Rightarrow> submit_outcome" where
  "handleSubmit apiKey zipCodes =
     (if trim apiKey = [] then ValidationErrors [''Please enter your OpenWeatherMap API key'']
      else if trim zipCodes = [] then ValidationErrors [''Please enter ZIP codes'']
      else
        let validZips = valid (validateZipCodes zipCodes);
            invalidZips = invalid (validateZipCodes zipCodes)
        in if 0 < length invalidZips then
             ValidationErrors
               [''Invalid ZIP codes found: '' @ join '', '' invalidZips,
                ''Please use 5-digit ZIP codes (e.g., 12345 or 12345-6789)'']
           else if length validZips = 0 then ValidationErrors [''No valid ZIP codes found'']
           else PostFetchWeather (trim apiKey) validZips)"


section \<open>Weekend page: records and date formatting\<close>

record WeekendWeatherData =
  zip_code :: string
  city :: string
  state :: string
  this_friday_date :: string
  this_friday_high :: int
  this_friday_description :: string
  this_saturday_date :: string
  this_saturday_high :: int
  this_saturday_description :: string
  this_sunday_date :: string
  this_sunday_high :: int
  this_sunday_description :: string
  last_year_friday_date :: string
  last_year_friday_high :: int
  last_year_friday_description :: string
  last_year_saturday_date :: string
  last_year_saturday_high :: int
  last_year_saturday_description :: string
  last_year_sunday_date :: string
  last_year_sunday_high :: int
  last_year_sunday_description :: string
  next_friday_date :: string
  next_friday_high :: int
  next_friday_description :: string
  next_saturday_date :: string
  next_saturday_high :: int
  next_saturday_description :: string
  next_sunday_date :: string
  next_sunday_high :: int
  next_sunday_description :: string

text \<open>\<open>formatShortDate\<close>: \<open>toLocaleDateString("en-US", {month: "short", day: "numeric",
  year: "numeric"})\<close>, as in \<open>Feb 28, 2020\<close>, on the local day of the date. The model is
  for the years from 1 on.\<close>

definition monthShort :: "string list" where
  "monthShort = [''Jan'', ''Feb'', ''Mar'', ''Apr'', ''May'', ''Jun'',
                 ''Jul'', ''Aug'', ''Sep'', ''Oct'', ''Nov'', ''Dec'']"

definition formatShortDate :: "js_date \<Rightarrow> string" where
  "formatShortDate t =
     monthShort ! nat (getMonth t) @ '' '' @ toString (nat (getDate t)) @ '', '' @
     toString (nat (getFullYear t))"


section \<open>Weekend page: the synthetic data generator\<close>

text \<open>
  \<open>Number.parseInt\<close> without a radix: leading white space is skipped, a sign is read, the
  prefix \<open>0x\<close> or \<open>0X\<close> selects radix 16, and the longest run of digits of the radix is the
  value; \<open>None\<close> is \<open>NaN\<close>. The result is an exact integer here; JavaScript rounds the
  integers beyond \<open>2^53\<close> to a double.
\<close>

definition digitValues :: "(char \<times> nat) list" where
  "digitValues =
     [(CHR ''0'', 0), (CHR ''1'', 1), (CHR ''2'', 2), (CHR ''3'', 3), (CHR ''4'', 4),
      (CHR ''5'', 5), (CHR ''6'', 6), (CHR ''7'', 7), (CHR ''8'', 8), (CHR ''9'', 9),
      (CHR ''a'', 10), (CHR ''b'', 11), (CHR ''c'', 12), (CHR ''d'', 13), (CHR ''e'', 14),
      (CHR ''f'', 15), (CHR ''A'', 10), (CHR ''B'', 11), (CHR ''C'', 12), (CHR ''D'', 13),
      (CHR ''E'', 14), (CHR ''F'', 15)]"

definition isRadixDigit :: "nat \<Rightarrow> char \<Rightarrow> bool" where
  "isRadixDigit radix c =
     (case map_of digitValues c of None \<Rightarrow> False | Some v \<Rightarrow> v < radix)"

definition digitsValue :: "nat \<Rightarrow> string \<Rightarrow> int" where
  "digitsValue radix ds =
     foldl (\<lambda>acc c. acc * int radix +
              int (case map_of digitValues c of Some v \<Rightarrow> v | None \<Rightarrow> 0)) 0 ds"

definition parseInt :: "string \<Rightarrow> int option" where
  "parseInt inputString =
     (let s = dropWhile isWhiteSpace inputString;
          sign = (if s \<noteq> [] \<and> hd s = CHR ''-'' then - 1 else 1);
          s = (if s \<noteq> [] \<and> (hd s = CHR ''+'' \<or> hd s = CHR ''-'') then tl s else s);
          hex = (take 2 s = ''0x'' \<or> take 2 s = ''0X'');
          radix = (if hex then 16 else 10);
          s = (if hex then drop 2 s else s);
          z = takeWhile (isRadixDigit radix) s
      in if z = [] then None else Some (sign * digitsValue radix z))"

text \<open>The table \<open>cities\<close> and the list \<open>weatherDescriptions\<close> of
  \<open>generateSampleWeekendData\<close>. The lookup \<open>cities[zipCode]\<close> is modelled on the table's own
  keys; the properties an object inherits are not modelled.\<close>

definition cities :: "(string \<times> string \<times> string) list" where
  "cities =
     [(''10001'', ''New York'', ''NY''), (''90210'', ''Beverly Hills'', ''CA''),
      (''60601'', ''Chicago'', ''IL''), (''33101'', ''Miami'', ''FL''),
      (''02101'', ''Boston'', ''MA''), (''48001'', ''Algonac'', ''MI''),
      (''77001'', ''Houston'', ''TX''), (''30301'', ''Atlanta'', ''GA''),
      (''98101'', ''Seattle'', ''WA''), (''85001'', ''Phoenix'', ''AZ'')]"

definition weatherDescriptions :: "string list" where
  "weatherDescriptions =
     [''Sunny'', ''Partly Cloudy'', ''Cloudy'', ''Light Rain'', ''Heavy Rain'',
      ''Thunderstorms'', ''Snow'', ''Fog'', ''Clear'', ''Overcast'']"

text \<open>\<open>zipSeed = Number.parseInt(zipCode) || 12345\<close>: \<open>NaN\<close> and 0 are falsy.\<close>

definition zipSeed :: "string \<Rightarrow> int" where
  "zipSeed zipCode =
     (case parseInt zipCode of None \<Rightarrow> 12345 | Some n \<Rightarrow> if n = 0 then 12345 else n)"

text \<open>\<open>random\<close>: the fractional part of \<open>Math.sin(seed) * 10000\<close>. Numbers are exact reals
  here, not doubles, so the model does not give the digits a browser computes; what is
  proved of it is which inputs the values depend on.\<close>

definition random :: "int \<Rightarrow> real" where
  "random seed = (let x = sin (real_of_int seed) * 10000 in x - of_int \<lfloor>x\<rfloor>)"

definition baseTemp :: "string \<Rightarrow> real" where
  "baseTemp zipCode = 40 + random (zipSeed zipCode) * 40"

definition tempVariation :: real where
  "tempVariation = 15"

text \<open>The high temperature and the description of a slot; \<open>k\<close> and \<open>j\<close> are the offsets
  added to \<open>zipSeed\<close>, 1 to 18.\<close>

definition sampleHigh :: "string \<Rightarrow> int \<Rightarrow> int" where
  "sampleHigh zipCode k =
     jsRound (baseTemp zipCode +
       (random (zipSeed zipCode + k) * tempVariation - tempVariation / 2))"

definition sampleDescription :: "string \<Rightarrow> int \<Rightarrow> string" where
  "sampleDescription zipCode j =
     weatherDescriptions !
       nat \<lfloor>random (zipSeed zipCode + j) * real (length weatherDescriptions)\<rfloor>"

text \<open>\<open>generateSampleWeekendData\<close>; \<open>now\<close> is the value of \<open>new Date()\<close> at the call.\<close>

definition generateSampleWeekendData :: "js_date \<Rightarrow> string \<Rightarrow> WeekendWeatherData" where
  "generateSampleWeekendData now zipCode =
     (let cityData = (case map_of cities zipCode of
                        Some c \<Rightarrow> c | None \<Rightarrow> (''City '' @ zipCode, ''XX''));
          dates = getWeekendDates now
      in \<lparr>zip_code = zipCode,
          city = fst cityData,
          state = snd cityData,
          this_friday_date = formatShortDate (thisFriday dates),
          this_friday_high = sampleHigh zipCode 1,
          this_friday_description = sampleDescription zipCode 2,
          this_saturday_date = formatShortDate (thisSaturday dates),
          this_saturday_high = sampleHigh zipCode 3,
          this_saturday_description = sampleDescription zipCode 4,
          this_sunday_date = formatShortDate (thisSunday dates),
          this_sunday_high = sampleHigh zipCode 5,
          this_sunday_description = sampleDescription zipCode 6,
          last_year_friday_date = formatShortDate (lastYearFriday dates),
          last_year_friday_high = sampleHigh zipCode 7,
          last_year_friday_description = sampleDescription zipCode 8,
          last_year_saturday_date = formatShortDate (lastYearSaturday dates),
          last_year_saturday_high = sampleHigh zipCode 9,
          last_year_saturday_description = sampleDescription zipCode 10,
          last_year_sunday_date = formatShortDate (lastYearSunday dates),
          last_year_sunday_high = sampleHigh zipCode 11,
          last_year_sunday_description = sampleDescription zipCode 12,
          next_friday_date = formatShortDate (nextFriday dates),
          next_friday_high = sampleHigh zipCode 13,
          next_friday_description = sampleDescription zipCode 14,
          next_saturday_date = formatShortDate (nextSaturday dates),
          next_saturday_high = sampleHigh zipCode 15,
          next_saturday_description = sampleDescription zipCode 16,
          next_sunday_date = formatShortDate (nextSunday dates),
          next_sunday_high = sampleHigh zipCode 17,
          next_sunday_description = sampleDescription zipCode 18\<rparr>)"

text \<open>The temperature and the description of the nine slots of a record.\<close>

definition slotValues :: "WeekendWeatherData \<Rightarrow> (int \<times> string) list" where
  "slotValues r =
     [(this_friday_high r, this_friday_description r),
      (this_saturday_high r, this_saturday_description r),
      (this_sunday_high r, this_sunday_description r),
      (last_year_friday_high r, last_year_friday_description r),
      (last_year_saturday_high r, last_year_saturday_description r),
      (last_year_sunday_high r, last_year_sunday_description r),
      (next_friday_high r, next_friday_description r),
      (next_saturday_high r, next_saturday_description r),
      (next_sunday_high r, next_sunday_description r)]"


section \<open>Weekend page: fetching from the weather provider\<close>

text \<open>
  The provider's answer. \<open>fetch\<close> either rejects with an error (\<open>Inl\<close> its message) or
  resolves to a response with a status; \<open>response.json()\<close> either rejects or gives the
  timeline object, which has an array \<open>days\<close>. A field that is absent or \<open>null\<close> is
  \<open>None\<close>. A request is identified by
  the values interpolated into its URL; \<open>formatApiDate\<close> prints the UTC date of a \<open>Date\<close>,
  which the model does not tell from the local date.
\<close>

record day_json =
  tempmax :: "real option"
  conditions :: "string option"

record timeline_json =
  resolvedAddress :: "string option"
  days :: "day_json list"

record http_response =
  status :: nat
  json :: "string + timeline_json"

record timeline_request =
  requestZip :: string
  startDate :: js_date
  endDate :: js_date
  requestKey :: string

text \<open>The clock and the network of a run; \<open>new Date()\<close> is \<open>now\<close> at every call.\<close>

record environment =
  now :: js_date
  fetch :: "timeline_request \<Rightarrow> string + http_response"

definition ok :: "http_response \<Rightarrow> bool" where
  "ok response = (200 \<le> status response \<and> status response \<le> 299)"

text \<open>\<open>days[i]\<close>, \<open>undefined\<close> beyond the end of the array.\<close>

definition dayAt :: "day_json list \<Rightarrow> nat \<Rightarrow> day_json option" where
  "dayAt ds i = (if i < length ds then Some (ds ! i) else None)"

text \<open>\<open>Math.round(((((day?.tempmax - 32) * 5) / 9) * 9) / 5 + 32) || 0\<close>: without a
  temperature the arithmetic gives \<open>NaN\<close> (or 0, for \<open>null\<close>), and the result is 0.\<close>

definition thisWeekendHigh :: "day_json option \<Rightarrow> int" where
  "thisWeekendHigh day =
     (case day of
        None \<Rightarrow> 0
      | Some d \<Rightarrow> (case tempmax d of None \<Rightarrow> 0 | Some t \<Rightarrow> jsRound (unitRoundTrip t)))"

text \<open>\<open>Math.round(day?.tempmax || 0)\<close>.\<close>

definition roundedHigh :: "day_json option \<Rightarrow> int" where
  "roundedHigh day =
     (case day of
        None \<Rightarrow> 0
      | Some d \<Rightarrow> (case tempmax d of None \<Rightarrow> 0 | Some t \<Rightarrow> jsRound t))"

text \<open>\<open>day?.conditions || "Unknown"\<close>; the empty string is falsy.\<close>

definition conditionsOf :: "day_json option \<Rightarrow> string" where
  "conditionsOf day =
     (case day of
        None \<Rightarrow> ''Unknown''
      | Some d \<Rightarrow>
          (case conditions d of
             None \<Rightarrow> ''Unknown''
           | Some c \<Rightarrow> if c = [] then ''Unknown'' else c))"

text \<open>\<open>String.prototype.split\<close> with a one-character separator.\<close>

fun splitOn :: "char \<Rightarrow> string \<Rightarrow> string list" where
  "splitOn sep [] = [[]]"
| "splitOn sep (c # cs) =
     (if c = sep then [] # splitOn sep cs
      else (case splitOn sep cs of [] \<Rightarrow> [[c]] | f # fs \<Rightarrow> (c # f) # fs))"

text \<open>\<open>resolvedAddress?.split(",")[0] || `City ${zipCode}`\<close> and
  \<open>resolvedAddress?.split(",")[1]?.trim() || "Unknown"\<close>.\<close>

definition cityOf :: "string option \<Rightarrow> string \<Rightarrow> string" where
  "cityOf address zipCode =
     (case address of
        None \<Rightarrow> ''City '' @ zipCode
      | Some a \<Rightarrow>
          (case splitOn (CHR '','') a of
             [] \<Rightarrow> ''City '' @ zipCode
           | f # fs \<Rightarrow> if f = [] then ''City '' @ zipCode else f))"

definition stateOf :: "string option \<Rightarrow> string" where
  "stateOf address =
     (case address of
        None \<Rightarrow> ''Unknown''
      | Some a \<Rightarrow>
          (case splitOn (CHR '','') a of
             f # g # gs \<Rightarrow> if trim g = [] then ''Unknown'' else trim g
           | _ \<Rightarrow> ''Unknown''))"

text \<open>The error thrown for a historical response that is not ok, and the one thrown for
  a forecast response that is not ok.\<close>

definition historicalError :: "nat \<Rightarrow> string" where
  "historicalError st =
     (if st = 401 then ''Invalid API key - Please check your Visual Crossing API key''
      else if st = 429 then ''Rate limit exceeded - Please wait and try again''
      else if st = 400 then ''Invalid ZIP code or date range''
      else ''Historical API Error '' @ toString st)"

definition forecastError :: "nat \<Rightarrow> string" where
  "forecastError st = ''Forecast API Error '' @ toString st"

text \<open>
  A line of the log is represented by the call of \<open>addLog\<close> that wrote it and the values
  interpolated into its text; the time of day that \<open>addLog\<close> puts in front and the
  pictographs of the texts are left out.
\<close>

datatype log_line =
  LogTestMode
| LogStartApi
| LogThisWeekend js_date js_date
| LogNextWeekend js_date js_date
| LogLastYear js_date js_date
| LogProcessingCount nat
| LogProcessing string
| LogFetchingHistorical string
| LogFetchingForecast string
| LogSuccess string string int int int
| LogNoData string
| LogZipError string string
| LogWaiting
| LogCompleted nat
| LogCompletedWithErrors nat nat nat
| LogStopped

definition historicalRequest :: "js_date \<Rightarrow> string \<Rightarrow> string \<Rightarrow> timeline_request" where
  "historicalRequest today zipCode apiKey =
     \<lparr>requestZip = zipCode, startDate = lastYearFriday (getWeekendDates today),
      endDate = lastYearSunday (getWeekendDates today), requestKey = apiKey\<rparr>"

definition forecastRequest :: "js_date \<Rightarrow> string \<Rightarrow> string \<Rightarrow> timeline_request" where
  "forecastRequest today zipCode apiKey =
     \<lparr>requestZip = zipCode, startDate = thisFriday (getWeekendDates today),
      endDate = nextSunday (getWeekendDates today), requestKey = apiKey\<rparr>"

text \<open>The record built from the two answers.\<close>

definition parseWeekendData ::
  "js_date \<Rightarrow> string \<Rightarrow> timeline_json \<Rightarrow> timeline_json \<Rightarrow> WeekendWeatherData" where
  "parseWeekendData today zipCode historicalData forecastData =
     (let dates = getWeekendDates today;
          f = dayAt (days forecastData);
          h = dayAt (days historicalData)
      in \<lparr>zip_code = zipCode,
          city = cityOf (resolvedAddress forecastData) zipCode,
          state = stateOf (resolvedAddress forecastData),
          this_friday_date = formatShortDate (thisFriday dates),
          this_friday_high = thisWeekendHigh (f 0),
          this_friday_description = conditionsOf (f 0),
          this_saturday_date = formatShortDate (thisSaturday dates),
          this_saturday_high = thisWeekendHigh (f 1),
          this_saturday_description = conditionsOf (f 1),
          this_sunday_date = formatShortDate (thisSunday dates),
          this_sunday_high = thisWeekendHigh (f 2),
          this_sunday_description = conditionsOf (f 2),
          last_year_friday_date = formatShortDate (lastYearFriday dates),
          last_year_friday_high = roundedHigh (h 0),
          last_year_friday_description = conditionsOf (h 0),
          last_year_saturday_date = formatShortDate (lastYearSaturday dates),
          last_year_saturday_high = roundedHigh (h 1),
          last_year_saturday_description = conditionsOf (h 1),
          last_year_sunday_date = formatShortDate (lastYearSunday dates),
          last_year_sunday_high = roundedHigh (h 2),
          last_year_sunday_description = conditionsOf (h 2),
          next_friday_date = formatShortDate (nextFriday dates),
          next_friday_high = roundedHigh (f 7),
          next_friday_description = conditionsOf (f 7),
          next_saturday_date = formatShortDate (nextSaturday dates),
          next_saturday_high = roundedHigh (f 8),
          next_saturday_description = conditionsOf (f 8),
          next_sunday_date = formatShortDate (nextSunday dates),
          next_sunday_high = roundedHigh (f 9),
          next_sunday_description = conditionsOf (f 9)\<rparr>)"

text \<open>
  \<open>fetchWeekendWeatherForZip\<close>: the lines it logs and its outcome, \<open>Inl\<close> the message of the
  error it throws, \<open>Inr\<close> the value it returns (its type allows \<open>null\<close>, which is \<open>None\<close>).
\<close>

definition fetchWeekendWeatherForZip ::
  "environment \<Rightarrow> string \<Rightarrow> string \<Rightarrow> log_line list \<times> (string + WeekendWeatherData option)"
  where
  "fetchWeekendWeatherForZip env zipCode apiKey =
     (case fetch env (historicalRequest (now env) zipCode apiKey) of
        Inl e \<Rightarrow> ([LogFetchingHistorical zipCode], Inl e)
      | Inr historicalResponse \<Rightarrow>
          if \<not> ok historicalResponse then
            ([LogFetchingHistorical zipCode],
             Inl (historicalError (status historicalResponse)))
          else
            (case json historicalResponse of
               Inl e \<Rightarrow> ([LogFetchingHistorical zipCode], Inl e)
             | Inr historicalData \<Rightarrow>
                 (case fetch env (forecastRequest (now env) zipCode apiKey) of
                    Inl e \<Rightarrow>
                      ([LogFetchingHistorical zipCode, LogFetchingForecast zipCode], Inl e)
                  | Inr forecastResponse \<Rightarrow>
                      if \<not> ok forecastResponse then
                        ([LogFetchingHistorical zipCode, LogFetchingForecast zipCode],
                         Inl (forecastError (status forecastResponse)))
                      else
                        (case json forecastResponse of
                           Inl e \<Rightarrow>
                             ([LogFetchingHistorical zipCode, LogFetchingForecast zipCode],
                              Inl e)
                         | Inr forecastData \<Rightarrow>
                             ([LogFetchingHistorical zipCode, LogFetchingForecast zipCode],
                              Inr (Some (parseWeekendData (now env) zipCode historicalData
                                           forecastData)))))))"


section \<open>Weekend page: the sequential fetch loop\<close>

datatype progress_status = Processing | Completed | Error

record ProgressUpdate =
  current :: nat
  total :: nat
  progressZip :: string
  progressStatus :: progress_status

text \<open>The state of the component that \<open>startFetching\<close> and \<open>stopFetching\<close> write, the
  fields of the form they read, and the local variables of \<open>startFetching\<close>.\<close>

record app_state =
  isProcessing :: bool
  progress :: "ProgressUpdate option"
  logs :: "log_line list"
  weatherData :: "WeekendWeatherData list"
  previewData :: "WeekendWeatherData list"
  showPreview :: bool
  error :: "string option"

record form =
  testMode :: bool
  apiKey :: string
  zipCodes :: string

record loop_vars =
  results :: "WeekendWeatherData list"
  completed :: nat
  errors :: nat

definition addLog :: "log_line \<Rightarrow> app_state \<Rightarrow> app_state" where
  "addLog message st = st\<lparr>logs := logs st @ [message]\<rparr>"

text \<open>What the inner \<open>try\<close> block gets for one ZIP code: the generated record in test mode
  (the delay before it is not modelled), the outcome of the fetch otherwise.\<close>

definition zipOutcome ::
  "form \<Rightarrow> environment \<Rightarrow> string \<Rightarrow> log_line list \<times> (string + WeekendWeatherData option)"
  where
  "zipOutcome frm env zipCode =
     (if testMode frm then ([], Inr (Some (generateSampleWeekendData (now env) zipCode)))
      else fetchWeekendWeatherForZip env zipCode (apiKey frm))"

text \<open>The body of the loop \<open>for (const zipCode of zipList)\<close>; \<open>n\<close> is \<open>zipList.length\<close>. The
  second that the loop waits after the last log line is a suspension of the run, the
  \<open>Waiting\<close> of the runs with clicks below.\<close>

definition processZip ::
  "form \<Rightarrow> environment \<Rightarrow> nat \<Rightarrow> app_state \<times> loop_vars \<Rightarrow> string \<Rightarrow> app_state \<times> loop_vars"
  where
  "processZip frm env n s zipCode =
     (let st = addLog (LogProcessing zipCode) (fst s);
          lv = snd s;
          st = st\<lparr>progress := Some \<lparr>current = completed lv, total = n, progressZip = zipCode,
                                    progressStatus = Processing\<rparr>\<rparr>;
          outcome = zipOutcome frm env zipCode;
          st = st\<lparr>logs := logs st @ fst outcome\<rparr>;
          s' = (case snd outcome of
                  Inr (Some result) \<Rightarrow>
                    (addLog (LogSuccess zipCode (city result) (this_friday_high result)
                               (this_saturday_high result) (this_sunday_high result)) st,
                     lv\<lparr>results := results lv @ [result]\<rparr>)
                | Inr None \<Rightarrow> (addLog (LogNoData zipCode) st, lv\<lparr>errors := errors lv + 1\<rparr>)
                | Inl errorMessage \<Rightarrow>
                    (addLog (LogZipError zipCode errorMessage) st,
                     lv\<lparr>errors := errors lv + 1\<rparr>));
          st = fst s';
          lv = (snd s')\<lparr>completed := completed (snd s') + 1\<rparr>;
          st = st\<lparr>progress := Some \<lparr>current = completed lv, total = n, progressZip = zipCode,
                                    progressStatus = Completed\<rparr>\<rparr>;
          st = (if \<not> testMode frm \<and> completed lv < n then addLog LogWaiting st else st)
      in (st, lv))"

text \<open>\<open>zipList\<close>: the lines of the text area that are not blank, trimmed.\<close>

definition zipList :: "string \<Rightarrow> string list" where
  "zipList zips = map trim (filter (\<lambda>z. trim z \<noteq> []) (splitOn (CHR 0x0A) zips))"

text \<open>The part of \<open>startFetching\<close> before the loop, for a form that passes the checks.\<close>

definition startRun :: "form \<Rightarrow> environment \<Rightarrow> app_state \<Rightarrow> app_state" where
  "startRun frm env st =
     (let st = st\<lparr>error := None, isProcessing := True, progress := None, logs := [],
                  weatherData := [], previewData := [], showPreview := False\<rparr>;
          dates = getWeekendDates (now env);
          st = addLog (if testMode frm then LogTestMode else LogStartApi) st;
          st = addLog (LogThisWeekend (thisFriday dates) (thisSunday dates)) st;
          st = addLog (LogNextWeekend (nextFriday dates) (nextSunday dates)) st;
          st = addLog (LogLastYear (lastYearFriday dates) (lastYearSunday dates)) st
      in addLog (LogProcessingCount (length (zipList (zipCodes frm)))) st)"

text \<open>The part of \<open>startFetching\<close> after the loop, with its \<open>finally\<close> block.\<close>

definition finishRun :: "nat \<Rightarrow> app_state \<times> loop_vars \<Rightarrow> app_state" where
  "finishRun n s =
     (let st = (fst s)\<lparr>weatherData := results (snd s),
                       previewData := take 3 (results (snd s)), showPreview := True\<rparr>;
          successCount = length (results (snd s));
          st = addLog (if successCount = n then LogCompleted successCount
                       else LogCompletedWithErrors (errors (snd s)) successCount n) st;
          st = st\<lparr>progress := Some \<lparr>current = n, total = n, progressZip = ''Completed'',
                                    progressStatus = Completed\<rparr>\<rparr>
      in st\<lparr>isProcessing := False\<rparr>)"

text \<open>\<open>startFetching\<close>. Nothing in the outer \<open>try\<close> block throws outside the inner one, so
  the outer \<open>catch\<close> has no branch here.\<close>

definition startFetching :: "form \<Rightarrow> environment \<Rightarrow> app_state \<Rightarrow> app_state" where
  "startFetching frm env st =
     (if \<not> testMode frm \<and> trim (apiKey frm) = [] then
        st\<lparr>error := Some ''Please enter your Visual Crossing API key or use Test Mode''\<rparr>
      else if trim (zipCodes frm) = [] then
        st\<lparr>error := Some ''Please enter at least one ZIP code''\<rparr>
      else if length (zipList (zipCodes frm)) = 0 then
        st\<lparr>error := Some ''Please enter valid ZIP codes''\<rparr>
      else
        finishRun (length (zipList (zipCodes frm)))
          (foldl (processZip frm env (length (zipList (zipCodes frm))))
             (startRun frm env st, \<lparr>results = [], completed = 0, errors = 0\<rparr>)
             (zipList (zipCodes frm))))"

text \<open>\<open>stopFetching\<close>, the handler of the button \<open>Stop Processing\<close>.\<close>

definition stopFetching :: "app_state \<Rightarrow> app_state" where
  "stopFetching st = addLog LogStopped (st\<lparr>isProcessing := False\<rparr>)"

text \<open>
  A run of \<open>startFetching\<close> with the user's clicks on the stop button. The function is
  asynchronous: it runs until an \<open>await\<close>, and a click is handled only while it is
  suspended there. The loop body is therefore split at its \<open>await\<close>s: \<open>beginPass\<close> is the
  part before them and \<open>finishPass\<close> the part after them.
\<close>

definition beginPass :: "nat \<Rightarrow> app_state \<times> loop_vars \<Rightarrow> string \<Rightarrow> app_state" where
  "beginPass n s zipCode =
     (addLog (LogProcessing zipCode) (fst s))
       \<lparr>progress := Some \<lparr>current = completed (snd s), total = n, progressZip = zipCode,
                           progressStatus = Processing\<rparr>\<rparr>"

definition finishPass ::
  "form \<Rightarrow> environment \<Rightarrow> nat \<Rightarrow> app_state \<times> loop_vars \<Rightarrow> string \<Rightarrow> app_state \<times> loop_vars"
  where
  "finishPass frm env n s zipCode =
     (let st = fst s;
          lv = snd s;
          outcome = zipOutcome frm env zipCode;
          st = st\<lparr>logs := logs st @ fst outcome\<rparr>;
          s' = (case snd outcome of
                  Inr (Some result) \<Rightarrow>
                    (addLog (LogSuccess zipCode (city result) (this_friday_high result)
                               (this_saturday_high result) (this_sunday_high result)) st,
                     lv\<lparr>results := results lv @ [result]\<rparr>)
                | Inr None \<Rightarrow> (addLog (LogNoData zipCode) st, lv\<lparr>errors := errors lv + 1\<rparr>)
                | Inl errorMessage \<Rightarrow>
                    (addLog (LogZipError zipCode errorMessage) st,
                     lv\<lparr>errors := errors lv + 1\<rparr>));
          st = fst s';
          lv = (snd s')\<lparr>completed := completed (snd s') + 1\<rparr>;
          st = st\<lparr>progress := Some \<lparr>current = completed lv, total = n, progressZip = zipCode,
                                    progressStatus = Completed\<rparr>\<rparr>;
          st = (if \<not> testMode frm \<and> completed lv < n then addLog LogWaiting st else st)
      in (st, lv))"

text \<open>
  Where a run is suspended. \<open>InFlight z\<close>: inside the pass for the ZIP code \<open>z\<close>, at the delay
  of the test mode or at one of the requests of \<open>fetchWeekendWeatherForZip\<close> (its \<open>await\<close>s
  are taken as one, and the lines it logs are appended when the pass goes on). \<open>Waiting\<close>:
  between two passes, in the second that the loop waits when it is not in test mode and
  ZIP codes are left; in test mode the next pass begins without a suspension. \<open>Done\<close>: the
  function has returned. \<open>pending\<close> holds the ZIP codes whose pass has not begun.
\<close>

datatype phase = InFlight string | Waiting | Done

datatype event = Resume | StopClicked

record run_state =
  app :: app_state
  vars :: loop_vars
  pending :: "string list"
  phase :: phase

text \<open>The loop goes to its next ZIP code and suspends inside that pass, or, with no ZIP
  code left, the function runs to its end.\<close>

definition nextPass :: "nat \<Rightarrow> run_state \<Rightarrow> run_state" where
  "nextPass n rs =
     (case pending rs of
        [] \<Rightarrow> rs\<lparr>app := finishRun n (app rs, vars rs), phase := Done\<rparr>
      | zipCode # rest \<Rightarrow>
          rs\<lparr>app := beginPass n (app rs, vars rs) zipCode, pending := rest,
             phase := InFlight zipCode\<rparr>)"

text \<open>
  \<open>Resume\<close>: the awaited promise settles and the function runs to its next suspension.
  \<open>StopClicked\<close>: the user clicks \<open>Stop Processing\<close>, a button that the page shows while
  \<open>isProcessing\<close> is true.
\<close>

definition step :: "form \<Rightarrow> environment \<Rightarrow> nat \<Rightarrow> run_state \<Rightarrow> event \<Rightarrow> run_state" where
  "step frm env n rs ev =
     (case ev of
        StopClicked \<Rightarrow>
          if isProcessing (app rs) then rs\<lparr>app := stopFetching (app rs)\<rparr> else rs
      | Resume \<Rightarrow>
          (case phase rs of
             Done \<Rightarrow> rs
           | Waiting \<Rightarrow> nextPass n rs
           | InFlight zipCode \<Rightarrow>
               (let s = finishPass frm env n (app rs, vars rs) zipCode;
                    rs' = rs\<lparr>app := fst s, vars := snd s\<rparr>
                in if \<not> testMode frm \<and> completed (snd s) < n then rs'\<lparr>phase := Waiting\<rparr>
                   else nextPass n rs')))"

text \<open>The call of \<open>startFetching\<close> on a form that passes its checks, up to the first
  suspension.\<close>

definition initialRun :: "form \<Rightarrow> environment \<Rightarrow> app_state \<Rightarrow> run_state" where
  "initialRun frm env st =
     nextPass (length (zipList (zipCodes frm)))
       \<lparr>app = startRun frm env st, vars = \<lparr>results = [], completed = 0, errors = 0\<rparr>,
        pending = zipList (zipCodes frm), phase = Waiting\<rparr>"

text \<open>Two states of a run that differ at most in the state of the component.\<close>

definition sameProgress :: "run_state \<Rightarrow> run_state \<Rightarrow> bool" where
  "sameProgress rs rs' =
     (vars rs = vars rs' \<and> pending rs = pending rs' \<and> phase rs = phase rs')"

definition runEvents :: "form \<Rightarrow> environment \<Rightarrow> event list \<Rightarrow> run_state \<Rightarrow> run_state" where
  "runEvents frm env evs rs = foldl (step frm env (length (zipList (zipCodes frm)))) rs evs"


text \<open>The records that a run adds to \<open>results\<close> for a list of ZIP codes: those of the ZIP
  codes whose outcome is a record.\<close>

definition successes :: "form \<Rightarrow> environment \<Rightarrow> string list \<Rightarrow> WeekendWeatherData list" where
  "successes frm env zs =
     concat (map (\<lambda>z. case snd (zipOutcome frm env z) of
                         Inr (Some r) \<Rightarrow> [r] | Inr None \<Rightarrow> [] | Inl e \<Rightarrow> []) zs)"


section \<open>Example inputs\<close>

text \<open>Wednesday 15 May 2024, at midnight.\<close>

definition wednesday :: js_date where
  "wednesday = \<lparr>localDay = 19858, timeInDay = 0\<rparr>"

text \<open>The state of the component before the first run.\<close>

definition idle :: app_state where
  "idle = \<lparr>isProcessing = False, progress = None, logs = [], weatherData = [],
           previewData = [], showPreview = False, error = None\<rparr>"

definition okResponse :: http_response where
  "okResponse =
     \<lparr>status = 200,
      json = Inr \<lparr>resolvedAddress = Some ''New York, NY, United States'', days = []\<rparr>\<rparr>"

definition rateLimited :: http_response where
  "rateLimited = \<lparr>status = 429, json = Inl ''Unexpected token''\<rparr>"

text \<open>A provider that answers the historical query (whose range starts before today) and
  refuses the forecast query with status 429.\<close>

definition forecastRateLimited :: environment where
  "forecastRateLimited =
     \<lparr>now = wednesday,
      fetch = (\<lambda>request. if localDay (startDate request) < localDay wednesday
                          then Inr okResponse else Inr rateLimited)\<rparr>"

text \<open>A provider that refuses every query for the ZIP code 90210 with status 429.\<close>

definition secondZipRateLimited :: environment where
  "secondZipRateLimited =
     \<lparr>now = wednesday,
      fetch = (\<lambda>request. if requestZip request = ''90210''
                          then Inr rateLimited else Inr okResponse)\<rparr>"

text \<open>No network at all: every request is rejected.\<close>

definition offline :: environment where
  "offline = \<lparr>now = wednesday, fetch = (\<lambda>request. Inl ''Failed to fetch'')\<rparr>"

text \<open>A provider that answers every query.\<close>

definition online :: environment where
  "online = \<lparr>now = wednesday, fetch = (\<lambda>request. Inr okResponse)\<rparr>"

definition threeZips :: form where
  "threeZips = \<lparr>testMode = False, apiKey = ''key'', zipCodes = ''10001\<newline>90210\<newline>60601''\<rparr>"

definition twoZipsApi :: form where
  "twoZipsApi = \<lparr>testMode = False, apiKey = ''key'', zipCodes = ''10001\<newline>90210''\<rparr>"

definition twoZipsTest :: form where
  "twoZipsTest = \<lparr>testMode = True, apiKey = [], zipCodes = ''10001\<newline>90210''\<rparr>"


section \<open>Properties of the primitives\<close>

lemma set_setFromArray: "set (setFromArray seen xs) = set seen \<union> set xs"
  by (induction xs arbitrary: seen) auto

lemma distinct_setFromArray: "distinct seen \<Longrightarrow> distinct (setFromArray seen xs)"
  by (induction xs arbitrary: seen) auto

lemma set_newSet: "set (newSet xs) = set xs"
  by (simp add: newSet_def set_setFromArray)

lemma distinct_newSet: "distinct (newSet xs)"
  by (simp add: newSet_def distinct_setFromArray)


section \<open>The ZIP range generator\<close>

lemma generateAllZipCodesForState_sorted_distinct:
  "sorted (generateAllZipCodesForState stateCode) \<and>
   distinct (generateAllZipCodesForState stateCode)"
  by (simp add: generateAllZipCodesForState_def Let_def distinct_newSet
      split: option.split prod.split)

lemma generateAllZipCodesForState_main_range:
  assumes "map_of zipRanges stateCode = Some (a, b)" and "a \<le> n" and "n \<le> b"
  shows "zipStr stateCode n \<in> set (generateAllZipCodesForState stateCode)"
proof -
  have "n \<in> set [a..<Suc b]"
    using assms(2,3) by (simp del: upt_Suc)
  then have "zipStr stateCode n \<in> set (map (zipStr stateCode) [a..<Suc b])"
    by (simp del: upt_Suc)
  then show ?thesis
    using assms(1)
    by (auto simp add: generateAllZipCodesForState_def Let_def set_newSet simp del: upt_Suc)
qed

lemma isDigit_digitChar:
  assumes "n < 10"
  shows "isDigit (digitChar n)"
proof -
  from assms have "n < length ''0123456789''" by simp
  then have "''0123456789'' ! n \<in> set ''0123456789''" by (rule nth_mem)
  then show ?thesis by (simp only: isDigit_def digitChar_def)
qed

lemma toString_digits: "list_all isDigit (toString n)"
proof (induction n rule: toString.induct)
  case (1 n)
  show ?case
  proof (cases "n < 10")
    case True
    then show ?thesis by (simp add: toString.simps [of n] isDigit_digitChar)
  next
    case False
    with 1 show ?thesis by (simp add: toString.simps [of n] isDigit_digitChar)
  qed
qed

lemma toString_length:
  "10 ^ k \<le> n \<Longrightarrow> n < 10 ^ Suc k \<Longrightarrow> length (toString n) = Suc k"
proof (induction k arbitrary: n)
  case 0
  then show ?case by (simp add: toString.simps [of n])
next
  case (Suc k)
  define p :: nat where "p = 10 ^ k"
  have "1 \<le> p" by (simp add: p_def)
  moreover from Suc.prems have "10 * p \<le> n" "n < 100 * p" by (simp_all add: p_def)
  ultimately have "10 \<le> n" "p \<le> n div 10" "n div 10 < 10 * p" by arith+
  then show ?case
    using Suc.IH [of "n div 10"] by (simp add: toString.simps [of n] p_def)
qed

lemma toString_length_le: "n < 10 ^ Suc k \<Longrightarrow> length (toString n) \<le> Suc k"
proof (induction k arbitrary: n)
  case 0
  then show ?case by (simp add: toString.simps [of n])
next
  case (Suc k)
  show ?case
  proof (cases "n < 10")
    case True
    then show ?thesis by (simp add: toString.simps [of n])
  next
    case False
    define p :: nat where "p = 10 ^ k"
    from Suc.prems have "n < 100 * p" by (simp add: p_def)
    then have "n div 10 < 10 * p" by arith
    with False Suc.IH [of "n div 10"] show ?thesis
      by (simp add: toString.simps [of n] p_def)
  qed
qed

lemma isFiveDigits_toString:
  assumes "10000 \<le> n" and "n < 100000"
  shows "isFiveDigits (toString n)"
  using toString_length [of 4 n] assms by (simp add: isFiveDigits_def toString_digits)

lemma isFiveDigits_padStart:
  assumes "n < 100000"
  shows "isFiveDigits (padStart 5 (CHR ''0'') (toString n))"
proof -
  have "length (toString n) \<le> 5"
    using toString_length_le [of n 4] assms by simp
  moreover have "isDigit (CHR ''0'')" by (simp add: isDigit_def)
  ultimately show ?thesis
    using toString_digits [of n]
    by (auto simp add: isFiveDigits_def padStart_def list_all_iff)
qed

lemma zipRanges_bounds:
  assumes "map_of zipRanges stateCode = Some (a, b)" and "stateCode \<noteq> ''NJ''"
  shows "b < 100000 \<and> (stateCode \<in> set paddedStates \<or> 10000 \<le> a)"
  using assms by (simp add: zipRanges_def paddedStates_def split: if_splits)

lemma extraRange_five_digits:
  assumes "z \<in> set (extraRange a b)" and "10000 \<le> a" and "b < 100000"
  shows "isFiveDigits z"
proof -
  from assms(1) obtain n where "z = toString n" and "a \<le> n" and "n \<le> b"
    by (auto simp add: extraRange_def simp del: upt_Suc)
  with assms(2,3) show ?thesis by (simp add: isFiveDigits_toString)
qed

text \<open>For every state code but \<open>NJ\<close> the generated strings are five digits.\<close>

lemma generateAllZipCodesForState_five_digits:
  assumes "stateCode \<noteq> ''NJ''" and "z \<in> set (generateAllZipCodesForState stateCode)"
  shows "isFiveDigits z"
proof (cases "map_of zipRanges stateCode")
  case None
  with assms(2) show ?thesis by (simp add: generateAllZipCodesForState_def)
next
  case (Some r)
  obtain a b where r: "r = (a, b)" by (cases r)
  note bounds = zipRanges_bounds [OF Some [unfolded r] assms(1)]
  from assms(2) Some r
  have "z \<in> set (map (zipStr stateCode) [a..<Suc b]) \<or> z \<in> set (extraRange 10001 11697)
      \<or> z \<in> set (extraRange 93001 96162) \<or> z \<in> set (extraRange 75001 79999)
      \<or> z \<in> set (extraRange 77001 77999)"
    by (auto simp add: generateAllZipCodesForState_def Let_def set_newSet
        split: if_splits simp del: upt_Suc)
  then show ?thesis
  proof (elim disjE)
    assume "z \<in> set (map (zipStr stateCode) [a..<Suc b])"
    then obtain n where n: "z = zipStr stateCode n" "a \<le> n" "n \<le> b"
      by (auto simp del: upt_Suc)
    with bounds show ?thesis
      by (auto simp add: zipStr_def isFiveDigits_toString isFiveDigits_padStart)
  qed (simp_all add: extraRange_five_digits)
qed

text \<open>
  C1. The claim: for every supported state code the generated list is sorted, has no
  duplicates and consists of five-digit strings, the numbers of a range that starts below
  10000 being padded with zeros. New Jersey's range starts at 7001, and New Jersey is not
  among the states the loop pads: the list generated for \<open>NJ\<close> contains the four-character
  string \<open>7001\<close>, which does not match the pattern.
\<close>

theorem generateAllZipCodesForState_NJ_not_five_digits:
  "''7001'' \<in> set (generateAllZipCodesForState ''NJ'') \<and> \<not> isFiveDigits ''7001''"
proof -
  have r: "map_of zipRanges ''NJ'' = Some (7001, 8989)"
    by (simp add: zipRanges_def)
  have s: "zipStr ''NJ'' 7001 = ''7001''"
    by (simp add: zipStr_def paddedStates_def toString.simps digitChar_def)
  have "zipStr ''NJ'' 7001 \<in> set (generateAllZipCodesForState ''NJ'')"
    by (rule generateAllZipCodesForState_main_range [OF r]) simp_all
  then show ?thesis
    by (simp add: s isFiveDigits_def)
qed


section \<open>The unit round trip\<close>

text \<open>
  C9. The expression applied to this weekend's forecast temperatures,
  \<open>((((x - 32) * 5) / 9) * 9) / 5 + 32\<close>, is the identity over exact arithmetic.
\<close>

theorem unitRoundTrip_identity: "unitRoundTrip x = x"
  by (simp add: unitRoundTrip_def field_simps)


section \<open>CSV escaping\<close>

lemma spec_collapseQuotes_doubleQuotes: "spec_collapseQuotes (doubleQuotes s) = s"
proof (induction s)
  case Nil
  show ?case by simp
next
  case (Cons c s)
  show ?case
  proof (cases "c = dquote")
    case True
    with Cons show ?thesis by simp
  next
    case False
    with Cons show ?thesis by (cases "doubleQuotes s") simp_all
  qed
qed

lemma spec_unescapeCSV_unquoted:
  assumes "dquote \<notin> set s"
  shows "spec_unescapeCSV s = s"
proof (cases s)
  case Nil
  then show ?thesis by (simp add: spec_unescapeCSV_def)
next
  case (Cons c cs)
  with assms have "hd s \<noteq> dquote" by auto
  then show ?thesis by (simp add: spec_unescapeCSV_def)
qed

text \<open>
  C8. \<open>escapeCSV\<close> wraps a field that contains a comma, a double quote or a newline in
  double quotes and doubles the quotes inside, leaves any other field as it is, and reading
  the escaped field back (wrapping quotes stripped, doubled quotes collapsed) gives the
  field again.
\<close>

theorem escapeCSV_roundtrip:
  "(needsQuoting s \<longrightarrow> escapeCSV (Some s) = dquote # doubleQuotes s @ [dquote]) \<and>
   (\<not> needsQuoting s \<longrightarrow> escapeCSV (Some s) = s) \<and>
   spec_unescapeCSV (escapeCSV (Some s)) = s"
proof (cases "needsQuoting s")
  case True
  have "spec_unescapeCSV (dquote # doubleQuotes s @ [dquote]) = s"
    by (simp add: spec_unescapeCSV_def spec_collapseQuotes_doubleQuotes)
  with True show ?thesis by (simp add: escapeCSV_def)
next
  case False
  then have "dquote \<notin> set s" by (simp add: needsQuoting_def)
  then have "spec_unescapeCSV s = s" by (rule spec_unescapeCSV_unquoted)
  with False show ?thesis by (simp add: escapeCSV_def)
qed

theorem escapeCSV_roundtrip_witness:
  "needsQuoting ''Washington, D.C.'' \<and>
   escapeCSV (Some ''Washington, D.C.'') = dquote # ''Washington, D.C.'' @ [dquote] \<and>
   spec_unescapeCSV (escapeCSV (Some ''Washington, D.C.'')) = ''Washington, D.C.'' \<and>
   \<not> needsQuoting ''Boston'' \<and> escapeCSV (Some ''Boston'') = ''Boston''"
proof -
  have w: "needsQuoting ''Washington, D.C.''" and b: "\<not> needsQuoting ''Boston''"
    by (simp_all add: needsQuoting_def dquote_def newline_def)
  have d: "doubleQuotes ''Washington, D.C.'' = ''Washington, D.C.''"
    by (simp add: dquote_def)
  from w b d escapeCSV_roundtrip [of "''Washington, D.C.''"]
    escapeCSV_roundtrip [of "''Boston''"]
  show ?thesis by metis
qed


section \<open>The calendar\<close>

lemma DayFromYear_mono: "y \<le> z \<Longrightarrow> DayFromYear y \<le> DayFromYear z"
proof (induction z rule: int_ge_induct)
  case base
  show ?case by simp
next
  case (step i)
  then show ?case using DayFromYear_step [of i] DaysInYear_pos(1) [of i] by simp
qed

lemma DayFromYear_strict: "y < z \<Longrightarrow> DayFromYear y < DayFromYear z"
  using DayFromYear_mono [of "y + 1" z] DayFromYear_step [of y] DaysInYear_pos(1) [of y]
  by simp

lemma yearDown_le: "DayFromYear (yearDown y d) \<le> d"
  by (induction y d rule: yearDown.induct) (simp add: yearDown.simps)

lemma yearDown_id: "DayFromYear y \<le> d \<Longrightarrow> yearDown y d = y"
  by (simp add: yearDown.simps)

lemma yearDown_ge: "DayFromYear z \<le> d \<Longrightarrow> z \<le> y \<Longrightarrow> z \<le> yearDown y d"
proof (induction y d rule: yearDown.induct)
  case (1 y d)
  show ?case
  proof (cases "d < DayFromYear y")
    case True
    with "1.prems" have "z \<noteq> y" by auto
    with "1.prems" have "z \<le> y - 1" by simp
    with 1 True show ?thesis by (simp add: yearDown.simps)
  next
    case False
    with "1.prems" show ?thesis by (simp add: yearDown.simps)
  qed
qed

lemma yearUp_spec:
  "DayFromYear y \<le> d \<Longrightarrow>
   DayFromYear (yearUp y d) \<le> d \<and> d < DayFromYear (yearUp y d + 1)"
  by (induction y d rule: yearUp.induct) (simp add: yearUp.simps)

lemma YearFromDay_bounds:
  "DayFromYear (YearFromDay d) \<le> d \<and> d < DayFromYear (YearFromDay d + 1)"
  unfolding YearFromDay_def by (rule yearUp_spec) (rule yearDown_le)

lemma YearFromDay_eq:
  assumes "DayFromYear y \<le> d" and "d < DayFromYear (y + 1)"
  shows "YearFromDay d = y"
proof (rule ccontr)
  assume n: "YearFromDay d \<noteq> y"
  note b = YearFromDay_bounds [of d]
  show False
  proof (cases "YearFromDay d < y")
    case True
    then have "DayFromYear (YearFromDay d + 1) \<le> DayFromYear y"
      by (intro DayFromYear_mono) simp
    with b assms show False by simp
  next
    case False
    with n have "y + 1 \<le> YearFromDay d" by simp
    then have "DayFromYear (y + 1) \<le> DayFromYear (YearFromDay d)"
      by (rule DayFromYear_mono)
    with b assms show False by simp
  qed
qed


lemma DayWithinYear_range:
  "0 \<le> DayWithinYear d \<and> DayWithinYear d < DaysInYear (YearFromDay d)"
  using YearFromDay_bounds [of d] DayFromYear_step [of "YearFromDay d"]
  by (simp add: DayWithinYear_def)

lemma MonthFromDay_range: "0 \<le> MonthFromDay d \<and> MonthFromDay d \<le> 11"
  by (simp add: MonthFromDay_def monthOfDay_def)

lemma MakeDay_in_month: "0 \<le> m \<Longrightarrow> m \<le> 11 \<Longrightarrow>
    MakeDay y m dt = DayFromYear y + monthStart m (InLeapYear y) + dt - 1"
  by (simp add: MakeDay_def Let_def div_pos_pos_trivial mod_pos_pos_trivial)

lemma MakeDay_fields:
  "MakeDay (YearFromDay d) (MonthFromDay d) dt = d + (dt - DateFromDay d)"
  using MonthFromDay_range [of d]
  by (simp add: MakeDay_in_month DateFromDay_def DayWithinYear_def)

lemma setDate_add: "setDate t (getDate t + k) = t\<lparr>localDay := localDay t + k\<rparr>"
  by (simp add: setDate_def getDate_def getMonth_def getFullYear_def MakeDay_fields)


lemma InLeapYear_cases: "InLeapYear y = 0 \<or> InLeapYear y = 1"
  by (simp add: InLeapYear_def)

lemma DaysInYear_leap: "DaysInYear y = 365 + InLeapYear y"
  by (simp add: InLeapYear_def DaysInYear_def)

lemma month_cases:
  fixes m :: int
  assumes "0 \<le> m" and "m \<le> 11"
  shows "m = 0 \<or> m = 1 \<or> m = 2 \<or> m = 3 \<or> m = 4 \<or> m = 5 \<or> m = 6 \<or> m = 7 \<or> m = 8
    \<or> m = 9 \<or> m = 10 \<or> m = 11"
  using assms by arith

lemma MakeDay_valid:
  assumes m: "0 \<le> m" "m \<le> 11"
    and dt: "1 \<le> dt" "dt \<le> daysInMonth m (InLeapYear y)"
  shows "YearFromDay (MakeDay y m dt) = y" (is ?Y)
    and "MonthFromDay (MakeDay y m dt) = m" (is ?M)
    and "DateFromDay (MakeDay y m dt) = dt" (is ?D)
proof -
  define n where "n = monthStart m (InLeapYear y) + dt - 1"
  have md: "MakeDay y m dt = DayFromYear y + n"
    using m by (simp add: MakeDay_in_month n_def)
  have n: "0 \<le> n \<and> n < 365 + InLeapYear y"
    using month_cases [OF m] dt InLeapYear_cases [of y]
    by (elim disjE; simp add: n_def monthStart_def daysInMonth_def)
  show y: ?Y
    unfolding md using n DayFromYear_step [of y]
    by (intro YearFromDay_eq) (simp_all add: DaysInYear_leap)
  have w: "DayWithinYear (MakeDay y m dt) = n"
    using y by (simp add: DayWithinYear_def md)
  have "monthOfDay n (InLeapYear y) = m"
    using month_cases [OF m] dt InLeapYear_cases [of y]
    by (elim disjE; simp add: monthOfDay_def n_def monthStart_def daysInMonth_def)
  then show mo: ?M
    by (simp add: MonthFromDay_def w y)
  show ?D
    by (simp add: DateFromDay_def w mo y n_def)
qed

lemma monthOfDay_interval:
  assumes "0 \<le> n" and "n < 365 + leap" and "leap = 0 \<or> leap = 1"
  shows "monthStart (monthOfDay n leap) leap \<le> n \<and>
    n < monthStart (monthOfDay n leap) leap + daysInMonth (monthOfDay n leap) leap"
proof -
  consider "n < 31" | "31 \<le> n \<and> n < 59 + leap" | "59 + leap \<le> n \<and> n < 90 + leap"
    | "90 + leap \<le> n \<and> n < 120 + leap" | "120 + leap \<le> n \<and> n < 151 + leap"
    | "151 + leap \<le> n \<and> n < 181 + leap" | "181 + leap \<le> n \<and> n < 212 + leap"
    | "212 + leap \<le> n \<and> n < 243 + leap" | "243 + leap \<le> n \<and> n < 273 + leap"
    | "273 + leap \<le> n \<and> n < 304 + leap" | "304 + leap \<le> n \<and> n < 334 + leap"
    | "334 + leap \<le> n"
    by linarith
  then show ?thesis
    using assms
    by cases (elim disjE; simp add: monthOfDay_def monthStart_def daysInMonth_def)+
qed

lemma DateFromDay_range:
  "1 \<le> DateFromDay d \<and>
   DateFromDay d \<le> daysInMonth (MonthFromDay d) (InLeapYear (YearFromDay d))"
  using DayWithinYear_range [of d] InLeapYear_cases [of "YearFromDay d"]
    monthOfDay_interval [of "DayWithinYear d" "InLeapYear (YearFromDay d)"]
  by (simp add: DateFromDay_def MonthFromDay_def DaysInYear_leap)

lemma leap_prev: "InLeapYear y = 1 \<Longrightarrow> InLeapYear (y - 1) = 0"
proof -
  assume "InLeapYear y = 1"
  then have "y mod 4 = 0"
    by (simp add: InLeapYear_def DaysInYear_def split: if_splits)
  then have "(y - 1) mod 4 \<noteq> 0" by presburger
  then show ?thesis by (simp add: InLeapYear_def DaysInYear_def)
qed

lemma setFullYear_previous:
  fixes t :: js_date
  defines "u \<equiv> setFullYear t (getFullYear t - 1)"
  shows "getFullYear u = getFullYear t - 1 \<and> timeInDay u = timeInDay t \<and>
    (if getMonth t = 1 \<and> getDate t = 29 then getMonth u = 2 \<and> getDate u = 1
     else getMonth u = getMonth t \<and> getDate u = getDate t)"
proof -
  define d where "d = localDay t"
  define y where "y = YearFromDay d"
  define m where "m = MonthFromDay d"
  define dt where "dt = DateFromDay d"
  have u: "localDay u = MakeDay (y - 1) m dt" "timeInDay u = timeInDay t"
    by (simp_all add: u_def setFullYear_def getFullYear_def getMonth_def getDate_def
        y_def m_def dt_def d_def)
  have m: "0 \<le> m" "m \<le> 11"
    using MonthFromDay_range [of d] by (simp_all add: m_def)
  have dt: "1 \<le> dt" "dt \<le> daysInMonth m (InLeapYear y)"
    using DateFromDay_range [of d] by (simp_all add: dt_def m_def y_def)
  show ?thesis
  proof (cases "m = 1 \<and> dt = 29")
    case True
    with dt InLeapYear_cases [of y] have "InLeapYear y = 1"
      by (auto simp add: daysInMonth_def)
    then have l: "InLeapYear (y - 1) = 0" by (rule leap_prev)
    have e: "MakeDay (y - 1) 1 29 = MakeDay (y - 1) 2 1"
      by (simp add: MakeDay_in_month monthStart_def l)
    have "YearFromDay (MakeDay (y - 1) 2 1) = y - 1"
      "MonthFromDay (MakeDay (y - 1) 2 1) = 2" "DateFromDay (MakeDay (y - 1) 2 1) = 1"
      by (rule MakeDay_valid; simp add: daysInMonth_def)+
    with True show ?thesis
      by (simp add: getFullYear_def getMonth_def getDate_def u e
          y_def [symmetric] m_def [symmetric] dt_def [symmetric] d_def [symmetric])
  next
    case False
    with dt InLeapYear_cases [of y] InLeapYear_cases [of "y - 1"]
    have "dt \<le> daysInMonth m (InLeapYear (y - 1))"
      by (auto simp add: daysInMonth_def)
    with m dt have "YearFromDay (MakeDay (y - 1) m dt) = y - 1"
      "MonthFromDay (MakeDay (y - 1) m dt) = m" "DateFromDay (MakeDay (y - 1) m dt) = dt"
      by (simp_all add: MakeDay_valid)
    with False show ?thesis
      by (auto simp add: getFullYear_def getMonth_def getDate_def u
          y_def [symmetric] m_def [symmetric] dt_def [symmetric] d_def [symmetric])
  qed
qed

lemma daysUntilFriday_table:
  "daysUntilFriday (WeekDay d) = spec_offset (WeekDay d)"
proof -
  have "0 \<le> WeekDay d" "WeekDay d < 7" by (simp_all add: WeekDay_def)
  then have "WeekDay d = 0 \<or> WeekDay d = 1 \<or> WeekDay d = 2 \<or> WeekDay d = 3 \<or> WeekDay d = 4
    \<or> WeekDay d = 5 \<or> WeekDay d = 6" by arith
  then show ?thesis
    by (elim disjE) (simp_all add: daysUntilFriday_def spec_offset_def)
qed

lemma getWeekendDates_this_next:
  "thisFriday (getWeekendDates today) =
     today\<lparr>localDay := localDay today + daysUntilFriday (getDay today)\<rparr> \<and>
   thisSaturday (getWeekendDates today) =
     today\<lparr>localDay := localDay today + daysUntilFriday (getDay today) + 1\<rparr> \<and>
   thisSunday (getWeekendDates today) =
     today\<lparr>localDay := localDay today + daysUntilFriday (getDay today) + 2\<rparr> \<and>
   nextFriday (getWeekendDates today) =
     today\<lparr>localDay := localDay today + daysUntilFriday (getDay today) + 7\<rparr> \<and>
   nextSaturday (getWeekendDates today) =
     today\<lparr>localDay := localDay today + daysUntilFriday (getDay today) + 8\<rparr> \<and>
   nextSunday (getWeekendDates today) =
     today\<lparr>localDay := localDay today + daysUntilFriday (getDay today) + 9\<rparr>"
  by (simp add: getWeekendDates_def Let_def setDate_add)

lemma getWeekendDates_last_year:
  "lastYearFriday (getWeekendDates today) =
     setFullYear (thisFriday (getWeekendDates today))
       (getFullYear (thisFriday (getWeekendDates today)) - 1) \<and>
   lastYearSaturday (getWeekendDates today) =
     setFullYear (thisSaturday (getWeekendDates today))
       (getFullYear (thisSaturday (getWeekendDates today)) - 1) \<and>
   lastYearSunday (getWeekendDates today) =
     setFullYear (thisSunday (getWeekendDates today))
       (getFullYear (thisSunday (getWeekendDates today)) - 1)"
  by (simp add: getWeekendDates_def Let_def)


section \<open>The weekend date calculator\<close>

text \<open>
  C5, as the claim is written: the dates of last year have the month and the day of this
  weekend's dates. On Wednesday 26 February 2020 (day 18318) this Saturday is 29 February
  2020, and \<open>setFullYear(2019)\<close> turns it into 1 March 2019.
\<close>

theorem getWeekendDates_last_year_counterexample:
  "getFullYear (thisSaturday (getWeekendDates \<lparr>localDay = 18318, timeInDay = 0\<rparr>)) = 2020 \<and>
   getMonth (thisSaturday (getWeekendDates \<lparr>localDay = 18318, timeInDay = 0\<rparr>)) = 1 \<and>
   getDate (thisSaturday (getWeekendDates \<lparr>localDay = 18318, timeInDay = 0\<rparr>)) = 29 \<and>
   getFullYear (lastYearSaturday (getWeekendDates \<lparr>localDay = 18318, timeInDay = 0\<rparr>)) = 2019 \<and>
   getMonth (lastYearSaturday (getWeekendDates \<lparr>localDay = 18318, timeInDay = 0\<rparr>)) = 2 \<and>
   getDate (lastYearSaturday (getWeekendDates \<lparr>localDay = 18318, timeInDay = 0\<rparr>)) = 1"
proof -
  define sat :: js_date where "sat = \<lparr>localDay = 18321, timeInDay = 0\<rparr>"
  have s: "thisSaturday (getWeekendDates \<lparr>localDay = 18318, timeInDay = 0\<rparr>) = sat"
    by (simp add: getWeekendDates_this_next getDay_def WeekDay_def daysUntilFriday_def sat_def)
  have l: "lastYearSaturday (getWeekendDates \<lparr>localDay = 18318, timeInDay = 0\<rparr>) =
      setFullYear sat (getFullYear sat - 1)"
    using getWeekendDates_last_year [of "\<lparr>localDay = 18318, timeInDay = 0\<rparr>"]
    by (simp only: s)
  have "YearFromDay 18321 = 2020"
    by (rule YearFromDay_eq) (simp_all add: DayFromYear_def)
  then have y: "getFullYear sat = 2020" and m: "getMonth sat = 1" and d: "getDate sat = 29"
    by (simp_all add: sat_def getFullYear_def getMonth_def getDate_def MonthFromDay_def
        DateFromDay_def DayWithinYear_def DayFromYear_def InLeapYear_def DaysInYear_def
        monthOfDay_def monthStart_def)
  from setFullYear_previous [of sat] show ?thesis
    by (simp add: s l y m d)
qed

text \<open>
  C5, amended: \<open>thisFriday\<close> is today plus the offset of the weekday table, \<open>thisSaturday\<close>
  and \<open>thisSunday\<close> are one and two days later, the dates of next weekend are seven days
  after those of this weekend, and each date of last year is the date of this weekend in
  the year before, with the same month and day of the month unless that date is
  29 February, which becomes 1 March.
\<close>

theorem getWeekendDates_weekends:
  "localDay (thisFriday (getWeekendDates today)) =
     localDay today + spec_offset (getDay today) \<and>
   localDay (thisSaturday (getWeekendDates today)) =
     localDay (thisFriday (getWeekendDates today)) + 1 \<and>
   localDay (thisSunday (getWeekendDates today)) =
     localDay (thisFriday (getWeekendDates today)) + 2 \<and>
   localDay (nextFriday (getWeekendDates today)) =
     localDay (thisFriday (getWeekendDates today)) + 7 \<and>
   localDay (nextSaturday (getWeekendDates today)) =
     localDay (thisSaturday (getWeekendDates today)) + 7 \<and>
   localDay (nextSunday (getWeekendDates today)) =
     localDay (thisSunday (getWeekendDates today)) + 7 \<and>
   yearBefore (thisFriday (getWeekendDates today)) (lastYearFriday (getWeekendDates today)) \<and>
   yearBefore (thisSaturday (getWeekendDates today))
     (lastYearSaturday (getWeekendDates today)) \<and>
   yearBefore (thisSunday (getWeekendDates today)) (lastYearSunday (getWeekendDates today))"
proof -
  have b: "yearBefore t (setFullYear t (getFullYear t - 1))" for t
    using setFullYear_previous [of t] by (simp add: yearBefore_def)
  have c: "yearBefore (thisFriday (getWeekendDates today))
      (lastYearFriday (getWeekendDates today))"
    "yearBefore (thisSaturday (getWeekendDates today))
      (lastYearSaturday (getWeekendDates today))"
    "yearBefore (thisSunday (getWeekendDates today))
      (lastYearSunday (getWeekendDates today))"
    by (simp_all only: getWeekendDates_last_year b)
  have d: "daysUntilFriday (getDay today) = spec_offset (getDay today)"
    by (simp add: getDay_def daysUntilFriday_table)
  from c show ?thesis
    by (simp add: getWeekendDates_this_next d)
qed

theorem getWeekendDates_weekends_witness:
  "getDay \<lparr>localDay = 19858, timeInDay = 0\<rparr> = 3 \<and>
   localDay (thisFriday (getWeekendDates \<lparr>localDay = 19858, timeInDay = 0\<rparr>)) = 19858 + 2 \<and>
   localDay (thisSaturday (getWeekendDates \<lparr>localDay = 19858, timeInDay = 0\<rparr>)) = 19858 + 3 \<and>
   localDay (thisSunday (getWeekendDates \<lparr>localDay = 19858, timeInDay = 0\<rparr>)) = 19858 + 4 \<and>
   localDay (nextFriday (getWeekendDates \<lparr>localDay = 19858, timeInDay = 0\<rparr>)) = 19858 + 9 \<and>
   yearBefore (thisFriday (getWeekendDates \<lparr>localDay = 19858, timeInDay = 0\<rparr>))
     (lastYearFriday (getWeekendDates \<lparr>localDay = 19858, timeInDay = 0\<rparr>))"
  using getWeekendDates_weekends [of "\<lparr>localDay = 19858, timeInDay = 0\<rparr>"]
  by (simp add: getDay_def WeekDay_def spec_offset_def)


section \<open>ZIP code validation\<close>

lemma trim_no_space:
  assumes "\<forall>c \<in> set s. \<not> isWhiteSpace c"
  shows "trim s = s"
proof -
  have "dropWhile isWhiteSpace s = s"
    using assms by (cases s) simp_all
  moreover have "dropWhile isWhiteSpace (rev s) = rev s"
    using assms by (cases "rev s") (simp, metis dropWhile_eq_self_iff list.sel(1) list.set_intros(1) set_rev)
  ultimately show ?thesis by (simp add: trim_def)
qed

lemma trim_all_space:
  assumes "trim s = []"
  shows "\<forall>c \<in> set s. isWhiteSpace c"
proof -
  have "dropWhile isWhiteSpace (rev (dropWhile isWhiteSpace s)) = []"
    using assms by (simp add: trim_def)
  then have a: "\<forall>c \<in> set (dropWhile isWhiteSpace s). isWhiteSpace c"
    by (simp add: dropWhile_eq_Nil_conv)
  have "dropWhile isWhiteSpace s = []"
  proof (rule ccontr)
    assume n: "dropWhile isWhiteSpace s \<noteq> []"
    then have "\<not> isWhiteSpace (hd (dropWhile isWhiteSpace s))" by (rule hd_dropWhile)
    moreover have "hd (dropWhile isWhiteSpace s) \<in> set (dropWhile isWhiteSpace s)"
      using n by simp
    ultimately show False using a by blast
  qed
  then show ?thesis by (simp add: dropWhile_eq_Nil_conv)
qed

lemma splitOnRuns_not_Nil: "splitOnRuns p s \<noteq> []"
  by (induction s) (simp_all split: list.split)

lemma splitOnRuns_fields:
  "f \<in> set (splitOnRuns p s) \<Longrightarrow> c \<in> set f \<Longrightarrow> \<not> p c"
proof (induction s arbitrary: f)
  case Nil
  then show ?case by simp
next
  case (Cons a s)
  obtain g gs where r: "splitOnRuns p s = g # gs"
    using splitOnRuns_not_Nil [of p s] by (cases "splitOnRuns p s") auto
  show ?case
  proof (cases "p a")
    case True
    with Cons show ?thesis by (auto split: if_splits)
  next
    case False
    with Cons.prems r have "f = a # g \<or> f \<in> set gs" by auto
    then show ?thesis
    proof
      assume "f = a # g"
      with Cons.prems(2) have "c = a \<or> c \<in> set g" by auto
      then show ?thesis using False Cons.IH [of g] r by auto
    next
      assume "f \<in> set gs"
      then show ?thesis using Cons.IH [of f] Cons.prems(2) r by auto
    qed
  qed
qed

lemma splitOnRuns_all_separators:
  "\<forall>c \<in> set s. p c \<Longrightarrow> f \<in> set (splitOnRuns p s) \<Longrightarrow> f = []"
  by (induction s arbitrary: f) (auto split: if_splits)

lemma isWhiteSpace_isSeparator: "isWhiteSpace c \<Longrightarrow> isSeparator c"
  by (simp add: isSeparator_def)

lemma zipArray_tokens:
  assumes "t \<in> set (zipArray s)"
  shows "t \<noteq> [] \<and> trim t = t"
proof -
  from assms obtain f where f: "f \<in> set (splitOnRuns isSeparator s)" and t: "t = trim f"
    and n: "t \<noteq> []"
    by (auto simp add: zipArray_def)
  have "\<forall>c \<in> set f. \<not> isWhiteSpace c"
    using splitOnRuns_fields [OF f] isWhiteSpace_isSeparator by blast
  then have "trim f = f" by (rule trim_no_space)
  with t n show ?thesis by simp
qed

lemma zipArray_blank:
  assumes "trim s = []"
  shows "zipArray s = []"
proof -
  have "\<forall>c \<in> set s. isSeparator c"
    using trim_all_space [OF assms] isWhiteSpace_isSeparator by blast
  then have "\<forall>f \<in> set (splitOnRuns isSeparator s). f = []"
    using splitOnRuns_all_separators by blast
  then show ?thesis
    by (auto simp add: zipArray_def filter_empty_conv trim_def)
qed

lemma invalid_foldl_validateStep:
  "invalid (foldl validateStep acc zs) =
     invalid acc @ filter (\<lambda>t. t \<noteq> [] \<and> \<not> isValidZipCode t) (map trim zs)"
  by (induction zs arbitrary: acc) (simp_all add: validateStep_def Let_def)

lemma invalid_validateZipCodes:
  "invalid (validateZipCodes s) = filter (\<lambda>t. \<not> isValidZipCode t) (zipArray s)"
proof -
  have "map trim (zipArray s) = zipArray s"
    using zipArray_tokens [of _ s] by (simp add: map_idI)
  moreover have "filter (\<lambda>t. t \<noteq> [] \<and> \<not> isValidZipCode t) (zipArray s) =
      filter (\<lambda>t. \<not> isValidZipCode t) (zipArray s)"
    using zipArray_tokens [of _ s] by (intro filter_cong) auto
  ultimately show ?thesis
    by (simp add: validateZipCodes_def validateAndCleanZipCodes_def invalid_foldl_validateStep)
qed

text \<open>
  C6. If some token of the input fails the pattern, the submission is rejected whatever
  the API key is: no POST request is made and no token is accepted. The list of invalid
  codes that the validation reports holds exactly the offending tokens, in their order,
  and (the check of the API key, which comes first, being passed) the message shown
  enumerates them. For the input of the three lines 12345, abcde and 67890 the list is
  \<open>[abcde]\<close>.
\<close>

theorem handleSubmit_rejects_batch:
  assumes "\<exists>t \<in> set (zipArray zipString). \<not> isValidZipCode t"
  shows "invalid (validateZipCodes zipString) =
       filter (\<lambda>t. \<not> isValidZipCode t) (zipArray zipString) \<and>
     invalid (validateZipCodes zipString) \<noteq> [] \<and>
     (\<exists>errors. handleSubmit key zipString = ValidationErrors errors) \<and>
     (trim key \<noteq> [] \<longrightarrow>
        handleSubmit key zipString =
          ValidationErrors
            [''Invalid ZIP codes found: '' @ join '', '' (invalid (validateZipCodes zipString)),
             ''Please use 5-digit ZIP codes (e.g., 12345 or 12345-6789)''])"
proof -
  have i: "invalid (validateZipCodes zipString) =
      filter (\<lambda>t. \<not> isValidZipCode t) (zipArray zipString)"
    by (rule invalid_validateZipCodes)
  from assms have n: "invalid (validateZipCodes zipString) \<noteq> []"
    by (simp add: i filter_empty_conv)
  from assms have "zipArray zipString \<noteq> []" by auto
  then have z: "trim zipString \<noteq> []"
    using zipArray_blank by blast
  from n z have "\<exists>errors. handleSubmit key zipString = ValidationErrors errors"
    by (simp add: handleSubmit_def Let_def)
  moreover from n z have "trim key \<noteq> [] \<longrightarrow>
      handleSubmit key zipString =
        ValidationErrors
          [''Invalid ZIP codes found: '' @ join '', '' (invalid (validateZipCodes zipString)),
           ''Please use 5-digit ZIP codes (e.g., 12345 or 12345-6789)'']"
    by (simp add: handleSubmit_def Let_def)
  ultimately show ?thesis using i n by blast
qed

theorem handleSubmit_rejects_batch_witness:
  "zipArray ''12345\<newline>abcde\<newline>67890'' =
     [''12345'', ''abcde'', ''67890''] \<and>
   isValidZipCode ''12345'' \<and> \<not> isValidZipCode ''abcde'' \<and> isValidZipCode ''67890'' \<and>
   invalid (validateZipCodes ''12345\<newline>abcde\<newline>67890'') =
     [''abcde''] \<and>
   handleSubmit ''key'' ''12345\<newline>abcde\<newline>67890'' =
     ValidationErrors
       [''Invalid ZIP codes found: abcde'',
        ''Please use 5-digit ZIP codes (e.g., 12345 or 12345-6789)'']"
proof -
  have z: "zipArray ''12345\<newline>abcde\<newline>67890'' =
      [''12345'', ''abcde'', ''67890'']"
    by (simp add: zipArray_def isSeparator_def isWhiteSpace_def trim_def)
  have v: "isValidZipCode ''12345''" "\<not> isValidZipCode ''abcde''" "isValidZipCode ''67890''"
    by (simp_all add: isValidZipCode_def ZIP_CODE_REGEX_def isDigit_def trim_def
        isWhiteSpace_def)
  have k: "trim ''key'' \<noteq> []"
    by (simp add: trim_def isWhiteSpace_def)
  have "\<exists>t \<in> set (zipArray ''12345\<newline>abcde\<newline>67890'').
      \<not> isValidZipCode t"
    by (simp add: z v)
  from handleSubmit_rejects_batch [OF this, of "''key''"] k show ?thesis
    by (simp add: z v)
qed


section \<open>The synthetic data generator\<close>

lemma random_range: "0 \<le> random seed \<and> random seed < 1"
  by (simp add: random_def Let_def) linarith

lemma sampleDescription_index:
  "nat \<lfloor>random seed * real (length weatherDescriptions)\<rfloor> < length weatherDescriptions"
proof -
  have "0 \<le> random seed" "random seed < 1"
    using random_range [of seed] by simp_all
  then have "0 \<le> random seed * 10" "random seed * 10 < 10" by simp_all
  then have "0 \<le> \<lfloor>random seed * 10\<rfloor>" "\<lfloor>random seed * 10\<rfloor> < 10" by linarith+
  then have "nat \<lfloor>random seed * 10\<rfloor> < 10" by linarith
  then show ?thesis by (simp add: weatherDescriptions_def del: floor_less_iff)
qed

lemma formatShortDate_localDay:
  "localDay t = localDay u \<Longrightarrow> formatShortDate t = formatShortDate u"
  by (simp add: formatShortDate_def getMonth_def getDate_def getFullYear_def)

lemma getWeekendDates_localDay:
  assumes "localDay now1 = localDay now2"
  shows "localDay (thisFriday (getWeekendDates now1)) =
           localDay (thisFriday (getWeekendDates now2))"
    and "localDay (thisSaturday (getWeekendDates now1)) =
           localDay (thisSaturday (getWeekendDates now2))"
    and "localDay (thisSunday (getWeekendDates now1)) =
           localDay (thisSunday (getWeekendDates now2))"
    and "localDay (nextFriday (getWeekendDates now1)) =
           localDay (nextFriday (getWeekendDates now2))"
    and "localDay (nextSaturday (getWeekendDates now1)) =
           localDay (nextSaturday (getWeekendDates now2))"
    and "localDay (nextSunday (getWeekendDates now1)) =
           localDay (nextSunday (getWeekendDates now2))"
    and "localDay (lastYearFriday (getWeekendDates now1)) =
           localDay (lastYearFriday (getWeekendDates now2))"
    and "localDay (lastYearSaturday (getWeekendDates now1)) =
           localDay (lastYearSaturday (getWeekendDates now2))"
    and "localDay (lastYearSunday (getWeekendDates now1)) =
           localDay (lastYearSunday (getWeekendDates now2))"
  using assms
  by (simp_all add: getWeekendDates_last_year getWeekendDates_this_next setFullYear_def
      getFullYear_def getMonth_def getDate_def getDay_def)

text \<open>
  C4. The synthetic generator is deterministic: two calls with the same ZIP code string,
  made at two moments of the same current date, give records that are equal in every field.
  The record depends on nothing else: the generator reads the clock and its argument only.
\<close>

theorem generateSampleWeekendData_deterministic:
  assumes "localDay now1 = localDay now2"
  shows "generateSampleWeekendData now1 zipCode = generateSampleWeekendData now2 zipCode"
proof -
  note d = getWeekendDates_localDay [OF assms, THEN formatShortDate_localDay]
  show ?thesis
    by (simp add: generateSampleWeekendData_def Let_def d)
qed

theorem generateSampleWeekendData_deterministic_witness:
  "generateSampleWeekendData \<lparr>localDay = 19858, timeInDay = 0\<rparr> ''10001'' =
   generateSampleWeekendData \<lparr>localDay = 19858, timeInDay = 43200000\<rparr> ''10001''"
  by (rule generateSampleWeekendData_deterministic) simp

text \<open>
  C10. For a ZIP code string on which \<open>Number.parseInt\<close> gives \<open>NaN\<close> or 0 the seed is
  12345, so two such strings get the same temperature and the same description in every
  slot.
\<close>

theorem generateSampleWeekendData_fallback_seed:
  assumes "parseInt zipCode1 = None \<or> parseInt zipCode1 = Some 0"
    and "parseInt zipCode2 = None \<or> parseInt zipCode2 = Some 0"
  shows "zipSeed zipCode1 = 12345 \<and> zipSeed zipCode2 = 12345 \<and>
    slotValues (generateSampleWeekendData now1 zipCode1) =
    slotValues (generateSampleWeekendData now2 zipCode2)"
proof -
  have s: "zipSeed zipCode1 = 12345" "zipSeed zipCode2 = 12345"
    using assms by (auto simp add: zipSeed_def)
  then show ?thesis
    by (simp add: slotValues_def generateSampleWeekendData_def Let_def sampleHigh_def
        sampleDescription_def baseTemp_def)
qed

theorem generateSampleWeekendData_fallback_seed_witness:
  "parseInt ''abcde'' = None \<and> parseInt ''00000'' = Some 0 \<and>
   zipSeed ''abcde'' = 12345 \<and> zipSeed ''00000'' = 12345 \<and>
   slotValues (generateSampleWeekendData \<lparr>localDay = 19858, timeInDay = 0\<rparr> ''abcde'') =
   slotValues (generateSampleWeekendData \<lparr>localDay = 19858, timeInDay = 0\<rparr> ''00000'')"
proof -
  have a: "parseInt ''abcde'' = None"
    by (simp add: parseInt_def Let_def isWhiteSpace_def isRadixDigit_def digitValues_def)
  have b: "parseInt ''00000'' = Some 0"
    by (simp add: parseInt_def Let_def isWhiteSpace_def isRadixDigit_def digitValues_def
        digitsValue_def)
  from generateSampleWeekendData_fallback_seed [of "''abcde''" "''00000''"] a b
  show ?thesis by simp
qed


section \<open>Fetching from the weather provider\<close>

lemma fetch_historical_not_ok:
  assumes "fetch env (historicalRequest (now env) zipCode key) = Inr response"
    and "\<not> ok response"
  shows "snd (fetchWeekendWeatherForZip env zipCode key) =
    Inl (historicalError (status response))"
  using assms by (simp add: fetchWeekendWeatherForZip_def)

lemma fetch_forecast_not_ok:
  assumes "fetch env (historicalRequest (now env) zipCode key) = Inr historicalResponse"
    and "ok historicalResponse" and "json historicalResponse = Inr historicalData"
    and "fetch env (forecastRequest (now env) zipCode key) = Inr response"
    and "\<not> ok response"
  shows "snd (fetchWeekendWeatherForZip env zipCode key) =
    Inl (forecastError (status response))"
  using assms by (simp add: fetchWeekendWeatherForZip_def)

lemma fetch_both_ok:
  assumes "fetch env (historicalRequest (now env) zipCode key) = Inr historicalResponse"
    and "ok historicalResponse" and "json historicalResponse = Inr historicalData"
    and "fetch env (forecastRequest (now env) zipCode key) = Inr forecastResponse"
    and "ok forecastResponse" and "json forecastResponse = Inr forecastData"
  shows "snd (fetchWeekendWeatherForZip env zipCode key) =
    Inr (Some (parseWeekendData (now env) zipCode historicalData forecastData))"
  using assms by (simp add: fetchWeekendWeatherForZip_def)

lemma zip_code_parseWeekendData: "zip_code (parseWeekendData today zipCode h f) = zipCode"
  by (simp add: parseWeekendData_def Let_def)

lemma zip_code_generateSampleWeekendData:
  "zip_code (generateSampleWeekendData today zipCode) = zipCode"
  by (simp add: generateSampleWeekendData_def Let_def)

lemma wednesday_weekend:
  "localDay (thisFriday (getWeekendDates wednesday)) = 19860"
  "localDay (lastYearFriday (getWeekendDates wednesday)) = 19494"
proof -
  show f: "localDay (thisFriday (getWeekendDates wednesday)) = 19860"
    by (simp add: getWeekendDates_this_next wednesday_def getDay_def WeekDay_def
        daysUntilFriday_def)
  have y: "YearFromDay 19860 = 2024"
    by (rule YearFromDay_eq) (simp_all add: DayFromYear_def)
  have m: "MonthFromDay 19860 = 4"
    by (simp add: MonthFromDay_def DayWithinYear_def y DayFromYear_def InLeapYear_def
        DaysInYear_def monthOfDay_def)
  have d: "DateFromDay 19860 = 17"
    by (simp add: DateFromDay_def m DayWithinYear_def y DayFromYear_def InLeapYear_def
        DaysInYear_def monthStart_def)
  have "MakeDay 2023 4 17 = 19494"
    by (simp add: MakeDay_in_month DayFromYear_def InLeapYear_def DaysInYear_def
        monthStart_def)
  then show "localDay (lastYearFriday (getWeekendDates wednesday)) = 19494"
    using getWeekendDates_last_year [of wednesday]
    by (simp add: setFullYear_def getFullYear_def getMonth_def getDate_def f y m d)
qed

text \<open>
  C3. The claim: for the historical query and for the forecast query alike, status 401 is
  reported as an invalid API key, 429 as an exceeded rate limit, 400 as an invalid ZIP code
  or date range, any other failure by its status code. The historical query does so; the
  forecast query reports every failure by its status code: when the provider answers the
  historical query and refuses the forecast query with 429, the error is
  \<open>Forecast API Error 429\<close>, where the same status on the historical query gives
  \<open>Rate limit exceeded - Please wait and try again\<close>.
\<close>

theorem fetchWeekendWeatherForZip_forecast_429:
  "snd (fetchWeekendWeatherForZip forecastRateLimited ''10001'' ''key'') =
     Inl ''Forecast API Error 429'' \<and>
   historicalError 429 = ''Rate limit exceeded - Please wait and try again''"
proof -
  have h: "fetch forecastRateLimited
      (historicalRequest (now forecastRateLimited) ''10001'' ''key'') = Inr okResponse"
    by (simp add: forecastRateLimited_def historicalRequest_def wednesday_weekend)
      (simp add: wednesday_def)
  have f: "fetch forecastRateLimited
      (forecastRequest (now forecastRateLimited) ''10001'' ''key'') = Inr rateLimited"
    by (simp add: forecastRateLimited_def forecastRequest_def wednesday_weekend)
      (simp add: wednesday_def)
  have "snd (fetchWeekendWeatherForZip forecastRateLimited ''10001'' ''key'') =
      Inl (forecastError (status rateLimited))"
    by (rule fetch_forecast_not_ok [OF h _ _ f])
      (simp_all add: ok_def okResponse_def rateLimited_def)
  moreover have "toString 429 = ''429''"
    by (simp add: toString.simps digitChar_def)
  ultimately show ?thesis
    by (simp add: forecastError_def rateLimited_def historicalError_def)
qed


section \<open>The sequential fetch loop\<close>

lemma processZip_vars:
  "results (snd (processZip frm env n s zipCode)) =
     results (snd s) @ successes frm env [zipCode]"
  "completed (snd (processZip frm env n s zipCode)) = completed (snd s) + 1"
  by (simp_all add: processZip_def Let_def successes_def split: sum.split option.split)

lemma processZip_logs:
  "\<exists>new. logs (fst (processZip frm env n s zipCode)) = logs (fst s) @ new \<and>
     LogProcessing zipCode \<in> set new \<and>
     (\<forall>m. snd (zipOutcome frm env zipCode) = Inl m \<longrightarrow> LogZipError zipCode m \<in> set new)"
  by (simp add: processZip_def Let_def addLog_def split: sum.split option.split)

lemma processZip_flags:
  "isProcessing (fst (processZip frm env n s zipCode)) = isProcessing (fst s)"
  "error (fst (processZip frm env n s zipCode)) = error (fst s)"
  by (simp_all add: processZip_def Let_def addLog_def split: sum.split option.split)

lemma foldl_processZip_vars:
  "results (snd (foldl (processZip frm env n) s zs)) = results (snd s) @ successes frm env zs"
  "completed (snd (foldl (processZip frm env n) s zs)) = completed (snd s) + length zs"
proof (induction zs arbitrary: s)
  case Nil
  {
    case 1
    show ?case by (simp add: successes_def)
  next
    case 2
    show ?case by simp
  }
next
  case (Cons z zs)
  {
    case 1
    have "successes frm env (z # zs) = successes frm env [z] @ successes frm env zs"
      by (simp add: successes_def)
    then show ?case by (simp add: Cons.IH(1) processZip_vars)
  next
    case 2
    show ?case by (simp add: Cons.IH(2) processZip_vars)
  }
qed

lemma foldl_processZip_logs:
  "\<exists>new. logs (fst (foldl (processZip frm env n) s zs)) = logs (fst s) @ new \<and>
     (\<forall>z \<in> set zs. LogProcessing z \<in> set new \<and>
        (\<forall>m. snd (zipOutcome frm env z) = Inl m \<longrightarrow> LogZipError z m \<in> set new))"
proof (induction zs arbitrary: s)
  case Nil
  show ?case by simp
next
  case (Cons z zs)
  obtain new1 where 1: "logs (fst (processZip frm env n s z)) = logs (fst s) @ new1"
    "LogProcessing z \<in> set new1"
    "\<forall>m. snd (zipOutcome frm env z) = Inl m \<longrightarrow> LogZipError z m \<in> set new1"
    using processZip_logs [of frm env n s z] by blast
  obtain new2 where 2:
    "logs (fst (foldl (processZip frm env n) (processZip frm env n s z) zs)) =
       logs (fst (processZip frm env n s z)) @ new2"
    "\<forall>z \<in> set zs. LogProcessing z \<in> set new2 \<and>
        (\<forall>m. snd (zipOutcome frm env z) = Inl m \<longrightarrow> LogZipError z m \<in> set new2)"
    using Cons.IH [of "processZip frm env n s z"] by blast
  have "logs (fst (foldl (processZip frm env n) s (z # zs))) = logs (fst s) @ (new1 @ new2)"
    by (simp add: 1 2)
  moreover have "\<forall>y \<in> set (z # zs). LogProcessing y \<in> set (new1 @ new2) \<and>
      (\<forall>m. snd (zipOutcome frm env y) = Inl m \<longrightarrow> LogZipError y m \<in> set (new1 @ new2))"
    using 1 2 by auto
  ultimately show ?case by blast
qed

lemma foldl_processZip_error:
  "error (fst (foldl (processZip frm env n) s zs)) = error (fst s)"
  by (induction zs arbitrary: s) (simp_all add: processZip_flags)

lemma finishRun_fields:
  "weatherData (finishRun n s) = results (snd s)"
  "progress (finishRun n s) =
     Some \<lparr>current = n, total = n, progressZip = ''Completed'', progressStatus = Completed\<rparr>"
  "isProcessing (finishRun n s) = False"
  "error (finishRun n s) = error (fst s)"
  "set (logs (fst s)) \<subseteq> set (logs (finishRun n s))"
  by (auto simp add: finishRun_def Let_def addLog_def)

lemma startRun_fields:
  "error (startRun frm env st) = None"
  by (simp add: startRun_def Let_def addLog_def)

text \<open>
  C7. A failure on one ZIP code does not abort the run. For a form that passes the checks
  of \<open>startFetching\<close>, the run ends with the records of exactly the ZIP codes that did not
  fail, in their order; every ZIP code of the list was processed, and every one that
  failed has its error line in the log; the progress at the end is all of the list, and
  no error is set for the run. With three ZIP codes of which the second is refused with
  status 429, the result holds the records of the first and the third.
\<close>

theorem startFetching_partial_failure:
  assumes "testMode frm \<or> trim (apiKey frm) \<noteq> []"
    and "trim (zipCodes frm) \<noteq> []"
    and "zipList (zipCodes frm) \<noteq> []"
  shows "weatherData (startFetching frm env st) = successes frm env (zipList (zipCodes frm)) \<and>
    (\<forall>z \<in> set (zipList (zipCodes frm)).
       LogProcessing z \<in> set (logs (startFetching frm env st)) \<and>
       (\<forall>m. snd (zipOutcome frm env z) = Inl m \<longrightarrow>
          LogZipError z m \<in> set (logs (startFetching frm env st)))) \<and>
    progress (startFetching frm env st) =
      Some \<lparr>current = length (zipList (zipCodes frm)), total = length (zipList (zipCodes frm)),
            progressZip = ''Completed'', progressStatus = Completed\<rparr> \<and>
    isProcessing (startFetching frm env st) = False \<and>
    error (startFetching frm env st) = None"
proof -
  define zs where "zs = zipList (zipCodes frm)"
  define s0 :: "app_state \<times> loop_vars"
    where "s0 = (startRun frm env st, \<lparr>results = [], completed = 0, errors = 0\<rparr>)"
  define s1 where "s1 = foldl (processZip frm env (length zs)) s0 zs"
  have run: "startFetching frm env st = finishRun (length zs) s1"
    using assms by (auto simp add: startFetching_def zs_def s0_def s1_def)
  have r: "results (snd s1) = successes frm env zs"
    by (simp add: s1_def foldl_processZip_vars s0_def)
  obtain new where l: "logs (fst s1) = logs (fst s0) @ new"
    "\<forall>z \<in> set zs. LogProcessing z \<in> set new \<and>
        (\<forall>m. snd (zipOutcome frm env z) = Inl m \<longrightarrow> LogZipError z m \<in> set new)"
    using foldl_processZip_logs [of frm env "length zs" s0 zs] by (auto simp add: s1_def)
  have sub: "set new \<subseteq> set (logs (finishRun (length zs) s1))"
    using finishRun_fields(5) [of s1 "length zs"] l(1) by auto
  have e: "error (fst s1) = None"
    by (simp add: s1_def foldl_processZip_error s0_def startRun_fields)
  from l(2) sub
  have "\<forall>z \<in> set zs. LogProcessing z \<in> set (logs (finishRun (length zs) s1)) \<and>
      (\<forall>m. snd (zipOutcome frm env z) = Inl m \<longrightarrow>
         LogZipError z m \<in> set (logs (finishRun (length zs) s1)))"
    by blast
  then show ?thesis
    unfolding run zs_def [symmetric]
    by (simp add: finishRun_fields r e)
qed

theorem startFetching_partial_failure_witness:
  "zipList (zipCodes threeZips) = [''10001'', ''90210'', ''60601''] \<and>
   snd (zipOutcome threeZips secondZipRateLimited ''90210'') =
     Inl ''Rate limit exceeded - Please wait and try again'' \<and>
   map zip_code (weatherData (startFetching threeZips secondZipRateLimited idle)) =
     [''10001'', ''60601''] \<and>
   LogZipError ''90210'' ''Rate limit exceeded - Please wait and try again''
     \<in> set (logs (startFetching threeZips secondZipRateLimited idle)) \<and>
   LogProcessing ''60601'' \<in> set (logs (startFetching threeZips secondZipRateLimited idle)) \<and>
   progress (startFetching threeZips secondZipRateLimited idle) =
     Some \<lparr>current = 3, total = 3, progressZip = ''Completed'', progressStatus = Completed\<rparr>"
proof -
  have z: "zipList (zipCodes threeZips) = [''10001'', ''90210'', ''60601'']"
    by (simp add: zipList_def threeZips_def trim_def isWhiteSpace_def)
  have k: "testMode threeZips \<or> trim (apiKey threeZips) \<noteq> []"
    and t: "trim (zipCodes threeZips) \<noteq> []"
    by (simp_all add: threeZips_def trim_def isWhiteSpace_def)
  have o1: "snd (zipOutcome threeZips secondZipRateLimited ''10001'') =
      Inr (Some (parseWeekendData wednesday ''10001''
        \<lparr>resolvedAddress = Some ''New York, NY, United States'', days = []\<rparr>
        \<lparr>resolvedAddress = Some ''New York, NY, United States'', days = []\<rparr>))"
    by (simp add: zipOutcome_def threeZips_def fetchWeekendWeatherForZip_def
        secondZipRateLimited_def historicalRequest_def forecastRequest_def ok_def
        okResponse_def)
  have o2: "snd (zipOutcome threeZips secondZipRateLimited ''90210'') =
      Inl ''Rate limit exceeded - Please wait and try again''"
    by (simp add: zipOutcome_def threeZips_def fetchWeekendWeatherForZip_def
        secondZipRateLimited_def historicalRequest_def ok_def rateLimited_def
        historicalError_def)
  have o3: "snd (zipOutcome threeZips secondZipRateLimited ''60601'') =
      Inr (Some (parseWeekendData wednesday ''60601''
        \<lparr>resolvedAddress = Some ''New York, NY, United States'', days = []\<rparr>
        \<lparr>resolvedAddress = Some ''New York, NY, United States'', days = []\<rparr>))"
    by (simp add: zipOutcome_def threeZips_def fetchWeekendWeatherForZip_def
        secondZipRateLimited_def historicalRequest_def forecastRequest_def ok_def
        okResponse_def)
  have s: "map zip_code (successes threeZips secondZipRateLimited
      [''10001'', ''90210'', ''60601'']) = [''10001'', ''60601'']"
    by (simp add: successes_def o1 o2 o3 zip_code_parseWeekendData)
  from startFetching_partial_failure [OF k t, of secondZipRateLimited idle] z o2 s
  show ?thesis by simp
qed

text \<open>The two parts of a pass, one after the other, are the loop body.\<close>

lemma finishPass_beginPass:
  "finishPass frm env n (beginPass n s zipCode, snd s) zipCode = processZip frm env n s zipCode"
  by (simp add: finishPass_def beginPass_def processZip_def Let_def addLog_def
      split: sum.split option.split)

lemma finishPass_vars:
  "results (snd (finishPass frm env n s zipCode)) =
     results (snd s) @ successes frm env [zipCode]"
  "completed (snd (finishPass frm env n s zipCode)) = completed (snd s) + 1"
  by (simp_all add: finishPass_def Let_def successes_def split: sum.split option.split)

lemma finishPass_app:
  "isProcessing (fst (finishPass frm env n s zipCode)) = isProcessing (fst s)"
  "LogProcessing z \<in> set (logs (fst (finishPass frm env n s zipCode))) \<longleftrightarrow>
     LogProcessing z \<in> set (logs (fst s)) \<or> LogProcessing z \<in> set (fst (zipOutcome frm env zipCode))"
  by (auto simp add: finishPass_def Let_def addLog_def split: sum.split option.split)

lemma beginPass_app:
  "isProcessing (beginPass n s zipCode) = isProcessing (fst s)"
  "logs (beginPass n s zipCode) = logs (fst s) @ [LogProcessing zipCode]"
  by (simp_all add: beginPass_def addLog_def)

text \<open>The second part of a pass reads nothing that \<open>stopFetching\<close> writes: what it does to
  the local variables of the run is the same whatever the state of the component is.\<close>

lemma finishPass_ignores_state:
  "snd (finishPass frm env n (st, lv) zipCode) = snd (finishPass frm env n (st', lv) zipCode)"
  by (simp add: finishPass_def Let_def split: sum.split option.split)

lemma step_StopClicked:
  "vars (step frm env n rs StopClicked) = vars rs"
  "pending (step frm env n rs StopClicked) = pending rs"
  "phase (step frm env n rs StopClicked) = phase rs"
  "isProcessing (app (step frm env n rs StopClicked)) = False"
  "LogProcessing z \<in> set (logs (app (step frm env n rs StopClicked))) \<longleftrightarrow>
     LogProcessing z \<in> set (logs (app rs))"
  by (simp_all add: step_def stopFetching_def addLog_def)

lemma nextPass_Cons:
  assumes "pending rs = zipCode # rest"
  shows "vars (nextPass n rs) = vars rs"
    and "pending (nextPass n rs) = rest"
    and "phase (nextPass n rs) = InFlight zipCode"
    and "app (nextPass n rs) = beginPass n (app rs, vars rs) zipCode"
  using assms by (simp_all add: nextPass_def)

lemma nextPass_Nil:
  assumes "pending rs = []"
  shows "vars (nextPass n rs) = vars rs"
    and "pending (nextPass n rs) = []"
    and "phase (nextPass n rs) = Done"
    and "app (nextPass n rs) = finishRun n (app rs, vars rs)"
  using assms by (simp_all add: nextPass_def)

lemma nextPass_sameProgress:
  assumes "sameProgress rs rs'"
  shows "sameProgress (nextPass n rs) (nextPass n rs')"
proof -
  have v: "vars rs = vars rs'" and p: "pending rs = pending rs'"
    and f: "phase rs = phase rs'"
    using assms by (simp_all add: sameProgress_def)
  show ?thesis
    by (cases "pending rs'") (simp_all add: sameProgress_def nextPass_def v p f)
qed

lemma step_sameProgress:
  assumes "sameProgress rs rs'"
  shows "sameProgress (step frm env n rs StopClicked) rs'"
    and "sameProgress (step frm env n rs Resume) (step frm env n rs' Resume)"
proof -
  have v: "vars rs = vars rs'" and p: "pending rs = pending rs'"
    and f: "phase rs = phase rs'"
    using assms by (simp_all add: sameProgress_def)
  show "sameProgress (step frm env n rs StopClicked) rs'"
    using assms by (simp add: sameProgress_def step_StopClicked)
  show "sameProgress (step frm env n rs Resume) (step frm env n rs' Resume)"
  proof (cases "phase rs'")
    case Done
    with assms show ?thesis by (simp add: step_def f)
  next
    case Waiting
    with nextPass_sameProgress [OF assms] show ?thesis by (simp add: step_def f)
  next
    case (InFlight z)
    define s where "s = finishPass frm env n (app rs, vars rs) z"
    define s' where "s' = finishPass frm env n (app rs', vars rs') z"
    have e: "snd s = snd s'"
      unfolding s_def s'_def v by (rule finishPass_ignores_state)
    have a: "sameProgress (rs\<lparr>app := fst s, vars := snd s\<rparr>) (rs'\<lparr>app := fst s', vars := snd s'\<rparr>)"
      by (simp add: sameProgress_def e p f)
    have r: "step frm env n rs Resume =
        (if \<not> testMode frm \<and> completed (snd s) < n
         then rs\<lparr>app := fst s, vars := snd s, phase := Waiting\<rparr>
         else nextPass n (rs\<lparr>app := fst s, vars := snd s\<rparr>))"
      by (simp add: step_def f InFlight s_def Let_def)
    have r': "step frm env n rs' Resume =
        (if \<not> testMode frm \<and> completed (snd s') < n
         then rs'\<lparr>app := fst s', vars := snd s', phase := Waiting\<rparr>
         else nextPass n (rs'\<lparr>app := fst s', vars := snd s'\<rparr>))"
      by (simp add: step_def InFlight s'_def Let_def)
    show ?thesis
    proof (cases "\<not> testMode frm \<and> completed (snd s') < n")
      case True
      then have "step frm env n rs Resume = rs\<lparr>app := fst s, vars := snd s, phase := Waiting\<rparr>"
        and "step frm env n rs' Resume = rs'\<lparr>app := fst s', vars := snd s', phase := Waiting\<rparr>"
        by (simp_all add: r r' e)
      then show ?thesis by (simp add: sameProgress_def e p)
    next
      case False
      then have "step frm env n rs Resume = nextPass n (rs\<lparr>app := fst s, vars := snd s\<rparr>)"
        and "step frm env n rs' Resume = nextPass n (rs'\<lparr>app := fst s', vars := snd s'\<rparr>)"
        by (auto simp add: r r' e)
      with nextPass_sameProgress [OF a, of n] show ?thesis by simp
    qed
  qed
qed

text \<open>Whatever the clicks on the stop button, the run processes the ZIP codes that it
  processes without them.\<close>

lemma runEvents_ignores_stop:
  assumes "sameProgress rs rs'"
  shows "sameProgress (runEvents frm env evs rs)
    (runEvents frm env (filter (\<lambda>ev. ev = Resume) evs) rs')"
  using assms
proof (induction evs arbitrary: rs rs')
  case Nil
  then show ?case by (simp add: runEvents_def)
next
  case (Cons ev evs)
  show ?case
  proof (cases ev)
    case Resume
    with Cons.IH [OF step_sameProgress(2) [OF Cons.prems]] show ?thesis
      by (simp add: runEvents_def)
  next
    case StopClicked
    with Cons.IH [OF step_sameProgress(1) [OF Cons.prems]] show ?thesis
      by (simp add: runEvents_def)
  qed
qed

lemma startFetching_weatherData:
  assumes "testMode frm \<or> trim (apiKey frm) \<noteq> []"
    and "trim (zipCodes frm) \<noteq> []"
    and "zipList (zipCodes frm) \<noteq> []"
  shows "weatherData (startFetching frm env st) = successes frm env (zipList (zipCodes frm))"
  using assms
  by (auto simp add: startFetching_def finishRun_fields foldl_processZip_vars)

text \<open>
  C2. The claim: the flag that the stop action flips is checked between the iterations,
  so no ZIP code is processed once it is set. The loop of \<open>startFetching\<close> does not read the
  flag. In a run on the ZIP codes 10001 and 90210 with an API key and a provider that
  answers every query, the loop has processed 10001 and waits its second before the next
  pass; 90210 has not been begun, and the flag is true, so the page shows the stop button.
  The user clicks it there: the flag is then false, and 90210 is still not begun. When the
  wait is over the loop begins the pass for 90210 all the same, and the run ends with the
  records of both ZIP codes, those of a run in which nobody clicks.
\<close>

theorem stopFetching_does_not_stop:
  "phase (runEvents twoZipsApi online [Resume] (initialRun twoZipsApi online idle)) = Waiting \<and>
   isProcessing (app (runEvents twoZipsApi online [Resume]
     (initialRun twoZipsApi online idle))) = True \<and>
   isProcessing (app (runEvents twoZipsApi online [Resume, StopClicked]
     (initialRun twoZipsApi online idle))) = False \<and>
   phase (runEvents twoZipsApi online [Resume, StopClicked]
     (initialRun twoZipsApi online idle)) = Waiting \<and>
   pending (runEvents twoZipsApi online [Resume, StopClicked]
     (initialRun twoZipsApi online idle)) = [''90210''] \<and>
   LogProcessing ''90210'' \<notin> set (logs (app (runEvents twoZipsApi online [Resume, StopClicked]
     (initialRun twoZipsApi online idle)))) \<and>
   phase (runEvents twoZipsApi online [Resume, StopClicked, Resume]
     (initialRun twoZipsApi online idle)) = InFlight ''90210'' \<and>
   LogProcessing ''90210'' \<in> set (logs (app (runEvents twoZipsApi online
     [Resume, StopClicked, Resume] (initialRun twoZipsApi online idle)))) \<and>
   phase (runEvents twoZipsApi online [Resume, StopClicked, Resume, Resume]
     (initialRun twoZipsApi online idle)) = Done \<and>
   map zip_code (weatherData (app (runEvents twoZipsApi online
     [Resume, StopClicked, Resume, Resume] (initialRun twoZipsApi online idle)))) =
     [''10001'', ''90210''] \<and>
   weatherData (app (runEvents twoZipsApi online
     [Resume, StopClicked, Resume, Resume] (initialRun twoZipsApi online idle))) =
     weatherData (startFetching twoZipsApi online idle)"
proof -
  define n where "n = length (zipList (zipCodes twoZipsApi))"
  define rs0 where "rs0 = initialRun twoZipsApi online idle"
  define rs1 where "rs1 = step twoZipsApi online n rs0 Resume"
  define rs2 where "rs2 = step twoZipsApi online n rs1 StopClicked"
  define rs3 where "rs3 = step twoZipsApi online n rs2 Resume"
  define rs4 where "rs4 = step twoZipsApi online n rs3 Resume"
  define body :: timeline_json
    where "body = \<lparr>resolvedAddress = Some ''New York, NY, United States'', days = []\<rparr>"
  have z: "zipList (zipCodes twoZipsApi) = [''10001'', ''90210'']"
    by (simp add: zipList_def twoZipsApi_def trim_def isWhiteSpace_def)
  have n: "n = 2" by (simp add: n_def z)
  have t: "\<not> testMode twoZipsApi" by (simp add: twoZipsApi_def)
  have o: "zipOutcome twoZipsApi online zipCode =
      ([LogFetchingHistorical zipCode, LogFetchingForecast zipCode],
       Inr (Some (parseWeekendData wednesday zipCode body body)))" for zipCode
    by (simp add: zipOutcome_def twoZipsApi_def fetchWeekendWeatherForZip_def online_def
        ok_def okResponse_def body_def)
  have s: "successes twoZipsApi online [zipCode] = [parseWeekendData wednesday zipCode body body]"
    for zipCode
    by (simp add: successes_def o)
  have 0: "phase rs0 = InFlight ''10001''" "pending rs0 = [''90210'']"
    "results (vars rs0) = []" "completed (vars rs0) = 0"
    "LogProcessing ''90210'' \<notin> set (logs (app rs0))" "isProcessing (app rs0)"
    by (simp_all add: rs0_def initialRun_def z nextPass_def beginPass_def startRun_def
        Let_def addLog_def idle_def)
  have 1: "phase rs1 = Waiting" "pending rs1 = [''90210'']"
    "results (vars rs1) = [parseWeekendData wednesday ''10001'' body body]"
    "completed (vars rs1) = 1"
    "LogProcessing ''90210'' \<notin> set (logs (app rs1))" "isProcessing (app rs1)"
    using 0 by (simp_all add: rs1_def step_def Let_def finishPass_vars finishPass_app s t n o)
  have 2: "phase rs2 = Waiting" "pending rs2 = [''90210'']"
    "results (vars rs2) = [parseWeekendData wednesday ''10001'' body body]"
    "completed (vars rs2) = 1"
    "LogProcessing ''90210'' \<notin> set (logs (app rs2))"
    "isProcessing (app rs2) = False"
    using 1 by (simp_all add: rs2_def step_StopClicked)
  have r3: "rs3 = nextPass n rs2"
    by (simp add: rs3_def step_def 2)
  have 3: "phase rs3 = InFlight ''90210''" "pending rs3 = []"
    "results (vars rs3) = [parseWeekendData wednesday ''10001'' body body]"
    "completed (vars rs3) = 1"
    "LogProcessing ''90210'' \<in> set (logs (app rs3))"
    using 2 by (simp_all add: r3 nextPass_Cons [OF 2(2)] beginPass_app)
  define p where "p = finishPass twoZipsApi online n (app rs3, vars rs3) ''90210''"
  have p: "results (snd p) = [parseWeekendData wednesday ''10001'' body body,
      parseWeekendData wednesday ''90210'' body body]" "completed (snd p) = 2"
    by (simp_all add: p_def finishPass_vars s 3)
  have c: "(completed (snd p) < n) = False"
    by (simp add: p n)
  have r4: "rs4 = nextPass n (rs3\<lparr>app := fst p, vars := snd p\<rparr>)"
    by (simp add: rs4_def step_def 3 Let_def p_def [symmetric] c)
  have 4: "phase rs4 = Done" "weatherData (app rs4) = results (snd p)"
    by (simp_all add: r4 nextPass_def 3 finishRun_fields)
  have k: "testMode twoZipsApi \<or> trim (apiKey twoZipsApi) \<noteq> []"
    "trim (zipCodes twoZipsApi) \<noteq> []" "zipList (zipCodes twoZipsApi) \<noteq> []"
    by (simp_all add: z) (simp_all add: twoZipsApi_def trim_def isWhiteSpace_def)
  have w: "weatherData (startFetching twoZipsApi online idle) = results (snd p)"
    using startFetching_weatherData [OF k, of online idle]
    by (simp add: z successes_def o p)
  have "runEvents twoZipsApi online [Resume] rs0 = rs1"
    "runEvents twoZipsApi online [Resume, StopClicked] rs0 = rs2"
    "runEvents twoZipsApi online [Resume, StopClicked, Resume] rs0 = rs3"
    "runEvents twoZipsApi online [Resume, StopClicked, Resume, Resume] rs0 = rs4"
    by (simp_all add: runEvents_def rs1_def rs2_def rs3_def rs4_def n_def)
  then show ?thesis
    unfolding rs0_def [symmetric]
    by (simp add: 1 2 3 4 w p zip_code_parseWeekendData)
qed

text \<open>In test mode the loop suspends inside a pass only. A click during the first pass,
  when 90210 has not been begun, does not keep the loop from processing 90210 either.\<close>

lemma stopFetching_test_mode_first_pass:
  "phase (initialRun twoZipsTest offline idle) = InFlight ''10001'' \<and>
   pending (initialRun twoZipsTest offline idle) = [''90210''] \<and>
   isProcessing (app (runEvents twoZipsTest offline [StopClicked]
     (initialRun twoZipsTest offline idle))) = False \<and>
   phase (runEvents twoZipsTest offline [StopClicked, Resume]
     (initialRun twoZipsTest offline idle)) = InFlight ''90210'' \<and>
   map zip_code (results (vars (runEvents twoZipsTest offline [StopClicked, Resume, Resume]
     (initialRun twoZipsTest offline idle)))) = [''10001'', ''90210'']"
proof -
  define n where "n = length (zipList (zipCodes twoZipsTest))"
  define rs0 where "rs0 = initialRun twoZipsTest offline idle"
  define rs1 where "rs1 = step twoZipsTest offline n rs0 StopClicked"
  define rs2 where "rs2 = step twoZipsTest offline n rs1 Resume"
  define rs3 where "rs3 = step twoZipsTest offline n rs2 Resume"
  have z: "zipList (zipCodes twoZipsTest) = [''10001'', ''90210'']"
    by (simp add: zipList_def twoZipsTest_def trim_def isWhiteSpace_def)
  have t: "testMode twoZipsTest" by (simp add: twoZipsTest_def)
  have s: "successes twoZipsTest offline [zipCode] =
      [generateSampleWeekendData wednesday zipCode]" for zipCode
    by (simp add: successes_def zipOutcome_def twoZipsTest_def offline_def)
  have 0: "phase rs0 = InFlight ''10001''" "pending rs0 = [''90210'']"
    "results (vars rs0) = []"
    by (simp_all add: rs0_def initialRun_def z nextPass_def)
  have 1: "phase rs1 = InFlight ''10001''" "pending rs1 = [''90210'']"
    "results (vars rs1) = []" "isProcessing (app rs1) = False"
    using 0 by (simp_all add: rs1_def step_StopClicked)
  define p where "p = finishPass twoZipsTest offline n (app rs1, vars rs1) ''10001''"
  have p: "results (snd p) = [generateSampleWeekendData wednesday ''10001'']"
    by (simp add: p_def finishPass_vars s 1)
  have r2: "rs2 = nextPass n (rs1\<lparr>app := fst p, vars := snd p\<rparr>)"
    by (simp add: rs2_def step_def 1 Let_def p_def [symmetric] t)
  have 2: "phase rs2 = InFlight ''90210''" "pending rs2 = []"
    "results (vars rs2) = [generateSampleWeekendData wednesday ''10001'']"
    by (simp_all add: r2 nextPass_def 1 p)
  define q where "q = finishPass twoZipsTest offline n (app rs2, vars rs2) ''90210''"
  have q: "results (snd q) = [generateSampleWeekendData wednesday ''10001'',
      generateSampleWeekendData wednesday ''90210'']"
    by (simp add: q_def finishPass_vars s 2)
  have r3: "rs3 = nextPass n (rs2\<lparr>app := fst q, vars := snd q\<rparr>)"
    by (simp add: rs3_def step_def 2 Let_def q_def [symmetric] t)
  have 3: "results (vars rs3) = results (snd q)"
    by (simp add: r3 nextPass_def 2)
  have "runEvents twoZipsTest offline [StopClicked] rs0 = rs1"
    "runEvents twoZipsTest offline [StopClicked, Resume] rs0 = rs2"
    "runEvents twoZipsTest offline [StopClicked, Resume, Resume] rs0 = rs3"
    by (simp_all add: runEvents_def rs1_def rs2_def rs3_def n_def)
  then show ?thesis
    unfolding rs0_def [symmetric]
    by (simp add: 0 1 2 3 q zip_code_generateSampleWeekendData)
qed

end
